theory Spec2Isabelle
  imports Main "HOL-Library.Sublist"
begin

section \<open>ConsolidateClasspath: loose classpath directories become jars\<close>

text \<open>
  A shallow embedding of \<^verbatim>\<open>pants/backend/jvm/tasks/consolidate_classpath.py\<close>.
  The task walks the classpath entries of every target that has a loose directory on
  its classpath, packs each directory into \<^verbatim>\<open>results_dir/output-<index>.jar\<close>
  (only for targets whose cached result is invalid) and replaces the directory entry by
  the jar in the consolidated classpath product.
\<close>

subsection \<open>Data\<close>

type_synonym conf = string
type_synonym path = string

text \<open>A classpath entry as the task sees it: the tuple \<^verbatim>\<open>(conf, entry.path)\<close>.\<close>

type_synonym entry = "conf \<times> path"

text \<open>
  \<^verbatim>\<open>ClasspathProducts\<close>: for every target an ordered sequence of entries. A target that
  was never given an entry has the empty sequence.
\<close>

type_synonym 't ClasspathProducts = "'t \<Rightarrow> entry list"

text \<open>
  The versioned target \<^verbatim>\<open>vt\<close> handed out by the invalidation check: the three
  attributes the task reads.
\<close>

record 't versioned_target =
  target :: 't
  valid :: bool
  results_dir :: path

text \<open>
  \<^verbatim>\<open>TaskError\<close> is what a failing jar tool raises out of \<^verbatim>\<open>open_jar\<close>;
  \<^verbatim>\<open>AttributeError\<close> is Python's answer to \<^verbatim>\<open>None.copy\<close>.
\<close>

datatype error = TaskError path | AttributeError

text \<open>
  What the task changes while it runs: the classpath products object it was handed, and
  the file system, of which only the jars written matter. \<open>jars\<close> lists them in
  the order of writing, each as (jar path, directory packed into it).
\<close>

record 't task_state =
  classpath_products :: "'t ClasspathProducts"
  jars :: "(path \<times> path) list"

subsection \<open>Python's own functions\<close>

text \<open>\<^verbatim>\<open>'{}'.format(index)\<close> for a non-negative integer: its decimal digits.\<close>

definition digit :: "nat \<Rightarrow> char" where
  "digit d = ''0123456789'' ! d"

fun str :: "nat \<Rightarrow> string" where
  "str n = (if n < 10 then [digit n] else str (n div 10) @ [digit (n mod 10)])"

declare str.simps [simp del]

text \<open>
  \<^verbatim>\<open>os.path.join(a, b)\<close> of \<^verbatim>\<open>posixpath\<close>: an absolute \<open>b\<close> replaces \<open>a\<close>;
  otherwise \<open>b\<close> is appended, after a separator unless \<open>a\<close> is empty or ends in one.
\<close>

definition os_path_join :: "path \<Rightarrow> path \<Rightarrow> path" where
  "os_path_join a b =
     (if b \<noteq> [] \<and> hd b = CHR ''/'' then b
      else if a = [] \<or> last a = CHR ''/'' then a @ b
      else a @ ''/'' @ b)"

text \<open>\<^verbatim>\<open>enumerate(entries)\<close> is \<^term>\<open>List.enumerate 0 entries\<close>.\<close>

subsection \<open>The collaborators of the task\<close>

text \<open>
  Modelled from the spec: the methods of \<^verbatim>\<open>ClasspathProducts\<close> the task calls
  (\<^verbatim>\<open>classpath_products.py\<close> is not among the sources). The manifest maps a target to
  an ordered sequence of entries. Reading the entries of a list of targets gives their
  sequences one after the other; the task only ever asks for one target.
\<close>

definition get_internal_classpath_entries_for_targets ::
  "'t ClasspathProducts \<Rightarrow> 't list \<Rightarrow> entry list" where
  "get_internal_classpath_entries_for_targets cp ts = concat (map cp ts)"

text \<open>
  Modelled from the spec: \<^verbatim>\<open>remove_for_target\<close> removes each given tuple from the
  target's sequence by exact (conf, path) match; the other entries keep their order.
  A tuple that is not there leaves the sequence as it is (the task ignores what the call
  returns).
\<close>

definition remove_for_target ::
  "'t ClasspathProducts \<Rightarrow> 't \<Rightarrow> entry list \<Rightarrow> 't ClasspathProducts" where
  "remove_for_target cp t elems = cp(t := fold removeAll elems (cp t))"

text \<open>
  Modelled from the spec: \<^verbatim>\<open>add_for_target\<close> adds the given tuples to the target's
  ordered sequence. Neither the call (the target and the new tuples, nothing else) nor
  the spec's "then add the new tuple" says where in the sequence they go; here they go
  to the end, in the order given. Which position an added entry takes is therefore a
  choice of this model and not a finding about the code: the properties below are about
  which entries a sequence holds and about the entries that were there before, and none
  of them settles the position of an archive entry in the real manifest.
\<close>

definition add_for_target ::
  "'t ClasspathProducts \<Rightarrow> 't \<Rightarrow> entry list \<Rightarrow> 't ClasspathProducts" where
  "add_for_target cp t elems = cp(t := cp t @ elems)"

text \<open>
  Modelled from the spec: \<^verbatim>\<open>self.invalidated(targets=...)\<close>. For each target, in
  input order, the validity check hands out one token: the verdict and the results
  directory assigned to the target. The check itself (fingerprints, the cache) is a
  parameter: \<open>oracle t\<close> is the verdict and the results directory of \<open>t\<close>.
\<close>

definition invalidated :: "('t \<Rightarrow> bool \<times> path) \<Rightarrow> 't list \<Rightarrow> 't versioned_target list" where
  "invalidated oracle ts =
     map (\<lambda>t. \<lparr>target = t, valid = fst (oracle t), results_dir = snd (oracle t)\<rparr>) ts"

text \<open>
  \<^verbatim>\<open>with self.open_jar(jarpath, overwrite=True, compressed=False) as jar: jar.write(src)\<close>.
  The jar tool is a parameter: \<open>open_jar jarpath src\<close> says whether packing directory
  \<open>src\<close> into \<open>jarpath\<close> succeeds. A success is recorded in \<open>jars\<close>; a failure raises
  \<^verbatim>\<open>TaskError\<close> and leaves the state as it was.
\<close>

definition jar_write ::
  "(path \<Rightarrow> path \<Rightarrow> bool) \<Rightarrow> path \<Rightarrow> path \<Rightarrow> 't task_state \<Rightarrow> (error \<times> 't task_state) + 't task_state" where
  "jar_write open_jar jarpath src st =
     (if open_jar jarpath src then Inr (st\<lparr>jars := jars st @ [(jarpath, src)]\<rparr>)
      else Inl (TaskError jarpath, st))"

subsection \<open>\<^verbatim>\<open>_consolidate_classpath\<close>\<close>

text \<open>
  The body of the inner loop, for one \<^verbatim>\<open>index, (conf, entry)\<close>. \<open>is_dir\<close> is
  \<^verbatim>\<open>ClasspathUtil.is_dir\<close>, a question to the file system and a parameter here: which
  paths are directories is taken as given for the length of a run. A raise is \<open>Inl\<close>,
  with the state as the raise leaves it.
\<close>

fun consolidate_entry ::
  "(path \<Rightarrow> bool) \<Rightarrow> (path \<Rightarrow> path \<Rightarrow> bool) \<Rightarrow> 't versioned_target \<Rightarrow> nat \<times> entry \<Rightarrow>
   't task_state \<Rightarrow> (error \<times> 't task_state) + 't task_state" where
  "consolidate_entry is_dir open_jar vt (index, (conf, p)) st =
     (if is_dir p then
        (let jarpath = os_path_join (results_dir vt) (''output-'' @ str index @ ''.jar'') in
         case (if \<not> valid vt then jar_write open_jar jarpath p st else Inr st) of
           Inl raised \<Rightarrow> Inl raised
         | Inr st1 \<Rightarrow>
             (let cp1 = remove_for_target (classpath_products st1) (target vt) [(conf, p)];
                  cp2 = add_for_target cp1 (target vt) [(conf, jarpath)]
              in Inr (st1\<lparr>classpath_products := cp2\<rparr>)))
      else Inr st)"

text \<open>The inner loop: \<^verbatim>\<open>for index, (conf, entry) in enumerate(entries)\<close>.\<close>

fun consolidate_entries ::
  "(path \<Rightarrow> bool) \<Rightarrow> (path \<Rightarrow> path \<Rightarrow> bool) \<Rightarrow> 't versioned_target \<Rightarrow> (nat \<times> entry) list \<Rightarrow>
   't task_state \<Rightarrow> (error \<times> 't task_state) + 't task_state" where
  "consolidate_entries is_dir open_jar vt [] st = Inr st"
| "consolidate_entries is_dir open_jar vt (ie # ies) st =
     (case consolidate_entry is_dir open_jar vt ie st of
        Inl raised \<Rightarrow> Inl raised
      | Inr st1 \<Rightarrow> consolidate_entries is_dir open_jar vt ies st1)"

text \<open>
  The body of the outer loop, for one \<^verbatim>\<open>vt\<close>: the entries of the target are read once,
  before the inner loop starts.
\<close>

definition consolidate_vt ::
  "(path \<Rightarrow> bool) \<Rightarrow> (path \<Rightarrow> path \<Rightarrow> bool) \<Rightarrow> 't versioned_target \<Rightarrow>
   't task_state \<Rightarrow> (error \<times> 't task_state) + 't task_state" where
  "consolidate_vt is_dir open_jar vt st =
     (let entries = get_internal_classpath_entries_for_targets (classpath_products st) [target vt]
      in consolidate_entries is_dir open_jar vt (List.enumerate 0 entries) st)"

text \<open>The outer loop: \<^verbatim>\<open>for vt in invalidation.all_vts\<close>.\<close>

fun consolidate_vts ::
  "(path \<Rightarrow> bool) \<Rightarrow> (path \<Rightarrow> path \<Rightarrow> bool) \<Rightarrow> 't versioned_target list \<Rightarrow>
   't task_state \<Rightarrow> (error \<times> 't task_state) + 't task_state" where
  "consolidate_vts is_dir open_jar [] st = Inr st"
| "consolidate_vts is_dir open_jar (vt # vts) st =
     (case consolidate_vt is_dir open_jar vt st of
        Inl raised \<Rightarrow> Inl raised
      | Inr st1 \<Rightarrow> consolidate_vts is_dir open_jar vts st1)"

definition consolidate_classpath ::
  "(path \<Rightarrow> bool) \<Rightarrow> (path \<Rightarrow> path \<Rightarrow> bool) \<Rightarrow> ('t \<Rightarrow> bool \<times> path) \<Rightarrow> 't list \<Rightarrow>
   't task_state \<Rightarrow> (error \<times> 't task_state) + 't task_state" where
  "consolidate_classpath is_dir open_jar oracle targets st =
     consolidate_vts is_dir open_jar (invalidated oracle targets) st"

subsection \<open>\<^verbatim>\<open>_find_consolidate_classpath_candidates\<close>\<close>

text \<open>
  The inner loop with its \<^verbatim>\<open>break\<close>: it answers whether the target is appended, and
  stops at the first directory.
\<close>

fun has_directory_entry :: "(path \<Rightarrow> bool) \<Rightarrow> entry list \<Rightarrow> bool" where
  "has_directory_entry is_dir [] = False"
| "has_directory_entry is_dir ((conf, p) # entries) =
     (if is_dir p then True else has_directory_entry is_dir entries)"

text \<open>
  The entries the inner loop asks \<open>is_dir\<close> about, in order: every entry up to and
  including the first directory, where the \<^verbatim>\<open>break\<close> leaves the loop.
\<close>

fun entries_examined :: "(path \<Rightarrow> bool) \<Rightarrow> entry list \<Rightarrow> entry list" where
  "entries_examined is_dir [] = []"
| "entries_examined is_dir ((conf, p) # entries) =
     (if is_dir p then [(conf, p)] else (conf, p) # entries_examined is_dir entries)"

text \<open>The outer loop, with the list it appends to.\<close>

fun find_candidates_loop ::
  "(path \<Rightarrow> bool) \<Rightarrow> 't ClasspathProducts \<Rightarrow> 't list \<Rightarrow> 't list \<Rightarrow> 't list" where
  "find_candidates_loop is_dir cp [] targets_with_directory_in_classpath =
     targets_with_directory_in_classpath"
| "find_candidates_loop is_dir cp (t # ts) targets_with_directory_in_classpath =
     (let entries = get_internal_classpath_entries_for_targets cp [t] in
      find_candidates_loop is_dir cp ts
        (if has_directory_entry is_dir entries
         then targets_with_directory_in_classpath @ [t]
         else targets_with_directory_in_classpath))"

definition find_consolidate_classpath_candidates ::
  "(path \<Rightarrow> bool) \<Rightarrow> 't ClasspathProducts \<Rightarrow> 't list \<Rightarrow> 't list" where
  "find_consolidate_classpath_candidates is_dir cp targets =
     find_candidates_loop is_dir cp targets []"

subsection \<open>The products of the run and \<^verbatim>\<open>execute\<close>\<close>

text \<open>
  The task mutates a \<^verbatim>\<open>ClasspathProducts\<close> object that the products registry also
  holds, so objects have identities here: \<open>products\<close> maps a product name to the
  object registered under it, \<open>objects\<close> gives every object its current value, and
  \<open>next_object\<close> is the identity the next new object gets. \<open>context_targets\<close> is
  what \<^verbatim>\<open>self.context.targets(**self._target_closure_kwargs)\<close> returns, and
  \<open>jars_written\<close> the jars on disk that this task wrote.
\<close>

record 't run_context =
  products :: "string \<rightharpoonup> nat"
  objects :: "nat \<Rightarrow> 't ClasspathProducts"
  next_object :: nat
  context_targets :: "'t list"
  jars_written :: "(path \<times> path) list"

text \<open>
  Modelled from the spec: \<^verbatim>\<open>ClasspathProducts.copy\<close> (the source's comment: "Clone
  the runtime_classpath to the consolidated_classpath"). The copy is a new object with
  the value the original has now.
\<close>

definition copy_products :: "nat \<Rightarrow> 't run_context \<Rightarrow> nat \<times> 't run_context" where
  "copy_products a ctx =
     (next_object ctx,
      ctx\<lparr>objects := (objects ctx)(next_object ctx := objects ctx a),
          next_object := Suc (next_object ctx)\<rparr>)"

text \<open>
  Modelled from the spec: \<^verbatim>\<open>products.get_data(typename, init_func)\<close>. A product that
  is registered is returned as it is; one that is absent is first created by
  \<open>init_func\<close> and registered.
\<close>

definition get_data ::
  "string \<Rightarrow> ('t run_context \<Rightarrow> nat \<times> 't run_context) \<Rightarrow> 't run_context \<Rightarrow> nat \<times> 't run_context" where
  "get_data typename init_func ctx =
     (case products ctx typename of
        Some a \<Rightarrow> (a, ctx)
      | None \<Rightarrow>
          (let (a, ctx1) = init_func ctx
           in (a, ctx1\<lparr>products := (products ctx1)(typename \<mapsto> a)\<rparr>)))"

text \<open>
  The task works on the object it was handed: what \<^verbatim>\<open>_consolidate_classpath\<close> did to
  the classpath products is the new value of that object, also when it raised.
\<close>

definition store_back :: "nat \<Rightarrow> 't task_state \<Rightarrow> 't run_context \<Rightarrow> 't run_context" where
  "store_back a st ctx =
     ctx\<lparr>objects := (objects ctx)(a := classpath_products st), jars_written := jars st\<rparr>"

text \<open>
  \<^verbatim>\<open>execute\<close>. Without a \<^verbatim>\<open>runtime_classpath\<close> product the first \<^verbatim>\<open>get_data\<close>
  returns \<^verbatim>\<open>None\<close>, and \<^verbatim>\<open>runtime_classpath.copy\<close> raises.
\<close>

definition execute ::
  "(path \<Rightarrow> bool) \<Rightarrow> (path \<Rightarrow> path \<Rightarrow> bool) \<Rightarrow> ('t \<Rightarrow> bool \<times> path) \<Rightarrow>
   't run_context \<Rightarrow> (error \<times> 't run_context) + 't run_context" where
  "execute is_dir open_jar oracle ctx =
     (case products ctx ''runtime_classpath'' of
        None \<Rightarrow> Inl (AttributeError, ctx)
      | Some runtime_classpath \<Rightarrow>
          (let (consolidated_classpath, ctx1) =
                 get_data ''consolidated_classpath'' (copy_products runtime_classpath) ctx;
               targets_to_consolidate =
                 find_consolidate_classpath_candidates is_dir
                   (objects ctx1 consolidated_classpath) (context_targets ctx1);
               st = \<lparr>classpath_products = objects ctx1 consolidated_classpath,
                     jars = jars_written ctx1\<rparr>
           in case consolidate_classpath is_dir open_jar oracle targets_to_consolidate st of
                Inl (raised, st1) \<Rightarrow> Inl (raised, store_back consolidated_classpath st1 ctx1)
              | Inr st1 \<Rightarrow> Inr (store_back consolidated_classpath st1 ctx1)))"

subsection \<open>Vocabulary of the properties\<close>

text \<open>The archive path of position \<open>i\<close> under a results directory.\<close>

definition jarpath :: "path \<Rightarrow> nat \<Rightarrow> path" where
  "jarpath rd i = os_path_join rd (''output-'' @ str i @ ''.jar'')"

text \<open>
  The file system is as the task expects it: no archive path under the results
  directory is itself a directory.
\<close>

definition archives_not_dirs :: "(path \<Rightarrow> bool) \<Rightarrow> path \<Rightarrow> bool" where
  "archives_not_dirs is_dir rd = (\<forall>i. \<not> is_dir (jarpath rd i))"

text \<open>An entry whose path is not a directory.\<close>

definition not_directory :: "(path \<Rightarrow> bool) \<Rightarrow> entry \<Rightarrow> bool" where
  "not_directory is_dir e = (\<not> is_dir (snd e))"

text \<open>The positions of a sequence that hold a directory, in increasing order.\<close>

definition directory_positions :: "(path \<Rightarrow> bool) \<Rightarrow> entry list \<Rightarrow> nat list" where
  "directory_positions is_dir es = filter (\<lambda>i. is_dir (snd (es ! i))) [0..<length es]"

text \<open>The state a run ends in, whether it returned or raised.\<close>

definition final_state :: "(error \<times> 's) + 's \<Rightarrow> 's" where
  "final_state r = (case r of Inl (raised, st) \<Rightarrow> st | Inr st \<Rightarrow> st)"

subsection \<open>The loops in closed form\<close>

text \<open>
  What one pass of the inner loop does to the sequence of the target: a directory entry
  is taken out and its archive entry is put at the end; any other entry changes nothing.
\<close>

definition replace_step :: "(path \<Rightarrow> bool) \<Rightarrow> path \<Rightarrow> entry list \<Rightarrow> nat \<times> entry \<Rightarrow> entry list" where
  "replace_step is_dir rd cur ie =
     (if is_dir (snd (snd ie))
      then removeAll (snd ie) cur @ [(fst (snd ie), jarpath rd (fst ie))]
      else cur)"

text \<open>
  The jars the inner loop writes for a list of indexed entries when every write succeeds:
  none for a valid target, one per directory entry otherwise.
\<close>

definition step_writes :: "(path \<Rightarrow> bool) \<Rightarrow> 't versioned_target \<Rightarrow> (nat \<times> entry) list \<Rightarrow> (path \<times> path) list" where
  "step_writes is_dir vt ies =
     (if valid vt then []
      else map (\<lambda>ie. (jarpath (results_dir vt) (fst ie), snd (snd ie)))
             (filter (\<lambda>ie. is_dir (snd (snd ie))) ies))"

text \<open>
  The indexed entries at which the inner loop raises: a directory of an invalid target
  whose jar cannot be written.
\<close>

definition write_fails :: "(path \<Rightarrow> bool) \<Rightarrow> (path \<Rightarrow> path \<Rightarrow> bool) \<Rightarrow> 't versioned_target \<Rightarrow> nat \<times> entry \<Rightarrow> bool" where
  "write_fails is_dir open_jar vt ie =
     (is_dir (snd (snd ie)) \<and> \<not> valid vt \<and>
      \<not> open_jar (jarpath (results_dir vt) (fst ie)) (snd (snd ie)))"

text \<open>
  The state after the inner loop has passed a list of indexed entries without raising.
\<close>

definition after_steps :: "(path \<Rightarrow> bool) \<Rightarrow> 't versioned_target \<Rightarrow> (nat \<times> entry) list \<Rightarrow> 't task_state \<Rightarrow> 't task_state" where
  "after_steps is_dir vt ies st =
     st\<lparr>classpath_products :=
          (classpath_products st)
            (target vt := foldl (replace_step is_dir (results_dir vt))
                            (classpath_products st (target vt)) ies),
        jars := jars st @ step_writes is_dir vt ies\<rparr>"

text \<open>
  A consolidated sequence: the entries that are not directories, in their order, and then
  one archive entry for every directory position, in the order of the positions.
\<close>

definition consolidated_entries :: "(path \<Rightarrow> bool) \<Rightarrow> path \<Rightarrow> entry list \<Rightarrow> entry list" where
  "consolidated_entries is_dir rd es =
     filter (not_directory is_dir) es @
     map (\<lambda>i. (fst (es ! i), jarpath rd i)) (directory_positions is_dir es)"

subsection \<open>A run to try the properties on\<close>

text \<open>
  Targets are numbers. Target 1 has a jar, a loose directory and another jar; target 2 has
  only a jar; target 3 has two loose directories under two confs; every other target has
  no entry.
\<close>

definition ex_is_dir :: "path \<Rightarrow> bool" where
  "ex_is_dir p = (p \<in> set [''/build/T1/classes'', ''/build/T3/classes'', ''/build/T3/res''])"

definition ex_classpath :: "nat ClasspathProducts" where
  "ex_classpath t =
     (if t = 1 then [(''default'', ''/lib/a.jar''), (''default'', ''/build/T1/classes''),
                     (''shaded'', ''/lib/b.jar'')]
      else if t = 2 then [(''default'', ''/build/T2/out.jar'')]
      else if t = 3 then [(''default'', ''/build/T3/classes''), (''shaded'', ''/build/T3/res'')]
      else [])"

text \<open>
  Target 3 is valid, the others are not; the results directory of target \<open>t\<close> is
  \<^verbatim>\<open>/out/T\<close> followed by the number of the target.
\<close>

definition ex_oracle :: "nat \<Rightarrow> bool \<times> path" where
  "ex_oracle t = (t = 3, ''/out/T'' @ str t)"

definition ex_state :: "nat task_state" where
  "ex_state = \<lparr>classpath_products = ex_classpath, jars = []\<rparr>"

definition ex_context :: "nat run_context" where
  "ex_context =
     \<lparr>products = [''runtime_classpath'' \<mapsto> 0], objects = (\<lambda>a. ex_classpath),
      next_object = 1, context_targets = [1, 2, 3], jars_written = []\<rparr>"

section \<open>Properties\<close>

lemma find_candidates_loop_filter:
  "find_candidates_loop is_dir cp ts acc =
     acc @ filter (\<lambda>t. has_directory_entry is_dir (cp t)) ts"
  by (induction ts arbitrary: acc)
     (simp_all add: get_internal_classpath_entries_for_targets_def)

subsection \<open>Decimal digits and archive paths\<close>


lemma str_small: "n < 10 \<Longrightarrow> str n = [digit n]"
  by (subst str.simps) simp





lemma str_0: "str 0 = ''0''" and str_1: "str 1 = ''1''" and str_2: "str 2 = ''2''"
  and str_3: "str 3 = ''3''"
  by (simp_all add: str_small digit_def)

subsection \<open>The inner loop\<close>

lemma after_steps_Nil: "after_steps is_dir vt [] st = st"
  by (simp add: after_steps_def step_writes_def)

lemma after_steps_Cons:
  "after_steps is_dir vt ies (after_steps is_dir vt [ie] st) = after_steps is_dir vt (ie # ies) st"
  by (simp add: after_steps_def step_writes_def)

lemma consolidate_entry_eq:
  "consolidate_entry is_dir open_jar vt ie st =
     (if write_fails is_dir open_jar vt ie
      then Inl (TaskError (jarpath (results_dir vt) (fst ie)), st)
      else Inr (after_steps is_dir vt [ie] st))"
proof (cases ie)
  case (fields i c p)
  show ?thesis
    unfolding fields
    by (simp add: write_fails_def after_steps_def step_writes_def replace_step_def jarpath_def
        jar_write_def remove_for_target_def add_for_target_def Let_def)
qed

lemma consolidate_entries_eq:
  "consolidate_entries is_dir open_jar vt ies st =
     (case find (write_fails is_dir open_jar vt) ies of
        None \<Rightarrow> Inr (after_steps is_dir vt ies st)
      | Some ie \<Rightarrow>
          Inl (TaskError (jarpath (results_dir vt) (fst ie)),
               after_steps is_dir vt (takeWhile (\<lambda>x. \<not> write_fails is_dir open_jar vt x) ies) st))"
proof (induction ies arbitrary: st)
  case Nil
  show ?case by (simp add: after_steps_Nil)
next
  case (Cons ie ies)
  show ?case
  proof (cases "write_fails is_dir open_jar vt ie")
    case True
    then show ?thesis by (simp add: consolidate_entry_eq after_steps_Nil)
  next
    case False
    then show ?thesis
      by (simp add: consolidate_entry_eq Cons.IH after_steps_Cons split: option.split)
  qed
qed


lemma foldl_replace_step:
  assumes "archives_not_dirs is_dir rd"
  shows "foldl (replace_step is_dir rd) cur ies =
           filter (\<lambda>e. \<not> (is_dir (snd e) \<and> e \<in> snd ` set ies)) cur @
           map (\<lambda>ie. (fst (snd ie), jarpath rd (fst ie)))
             (filter (\<lambda>ie. is_dir (snd (snd ie))) ies)"
proof (induction ies arbitrary: cur)
  case Nil
  show ?case by simp
next
  case (Cons ie ies)
  have jar: "\<not> is_dir (jarpath rd i)" for i
    using assms by (simp add: archives_not_dirs_def)
  show ?case
  proof (cases "is_dir (snd (snd ie))")
    case True
    have step: "replace_step is_dir rd cur ie =
                  removeAll (snd ie) cur @ [(fst (snd ie), jarpath rd (fst ie))]"
      using True by (simp add: replace_step_def)
    have "filter (\<lambda>e. \<not> (is_dir (snd e) \<and> e \<in> snd ` set ies)) (removeAll (snd ie) cur) =
          filter (\<lambda>e. \<not> (is_dir (snd e) \<and> e \<in> snd ` set (ie # ies))) cur"
      unfolding removeAll_filter_not_eq filter_filter
      by (rule filter_cong [OF refl]) (use True in auto)
    with True show ?thesis
      by (simp add: Cons.IH step jar)
  next
    case False
    have step: "replace_step is_dir rd cur ie = cur"
      using False by (simp add: replace_step_def)
    have "filter (\<lambda>e. \<not> (is_dir (snd e) \<and> e \<in> snd ` set ies)) cur =
          filter (\<lambda>e. \<not> (is_dir (snd e) \<and> e \<in> snd ` set (ie # ies))) cur"
      by (rule filter_cong [OF refl]) (use False in auto)
    with False show ?thesis
      by (simp add: Cons.IH step)
  qed
qed

lemma enumerate_map_nth: "List.enumerate 0 es = map (\<lambda>i. (i, es ! i)) [0..<length es]"
  by (rule nth_equalityI) (simp_all add: nth_enumerate_eq)

lemma foldl_replace_step_enumerate:
  assumes "archives_not_dirs is_dir rd"
  shows "foldl (replace_step is_dir rd) es (List.enumerate 0 es) = consolidated_entries is_dir rd es"
proof -
  have "filter (\<lambda>e. \<not> (is_dir (snd e) \<and> e \<in> snd ` set (List.enumerate 0 es))) es =
        filter (not_directory is_dir) es"
  proof (rule filter_cong [OF refl])
    have "snd ` set (List.enumerate 0 es) = set es"
      by (metis map_snd_enumerate set_map)
    then show "\<And>e. e \<in> set es \<Longrightarrow>
        (\<not> (is_dir (snd e) \<and> e \<in> snd ` set (List.enumerate 0 es))) = not_directory is_dir e"
      by (simp add: not_directory_def)
  qed
  moreover have "map (\<lambda>ie. (fst (snd ie), jarpath rd (fst ie)))
                   (filter (\<lambda>ie. is_dir (snd (snd ie))) (List.enumerate 0 es)) =
                 map (\<lambda>i. (fst (es ! i), jarpath rd i)) (directory_positions is_dir es)"
    by (simp add: enumerate_map_nth filter_map o_def directory_positions_def)
  ultimately show ?thesis
    by (simp add: foldl_replace_step [OF assms] consolidated_entries_def)
qed


lemma consolidate_vt_eq:
  "consolidate_vt is_dir open_jar vt st =
     (let ies = List.enumerate 0 (classpath_products st (target vt)) in
      case find (write_fails is_dir open_jar vt) ies of
        None \<Rightarrow> Inr (after_steps is_dir vt ies st)
      | Some ie \<Rightarrow>
          Inl (TaskError (jarpath (results_dir vt) (fst ie)),
               after_steps is_dir vt (takeWhile (\<lambda>x. \<not> write_fails is_dir open_jar vt x) ies) st))"
  by (simp add: consolidate_vt_def consolidate_entries_eq Let_def
      get_internal_classpath_entries_for_targets_def)


text \<open>Every outcome of one target's processing is the state after some of its steps.\<close>

lemma consolidate_vt_final:
  "\<exists>n. final_state (consolidate_vt is_dir open_jar vt st) =
         after_steps is_dir vt (take n (List.enumerate 0 (classpath_products st (target vt)))) st
       \<and> (\<forall>ie\<in>set (take n (List.enumerate 0 (classpath_products st (target vt)))).
            \<not> write_fails is_dir open_jar vt ie)"
proof -
  let ?ies = "List.enumerate 0 (classpath_products st (target vt))"
  let ?ok = "\<lambda>x. \<not> write_fails is_dir open_jar vt x"
  show ?thesis
  proof (cases "find (write_fails is_dir open_jar vt) ?ies")
    case None
    then have "final_state (consolidate_vt is_dir open_jar vt st) =
               after_steps is_dir vt (take (length ?ies) ?ies) st"
      by (simp add: consolidate_vt_eq final_state_def)
    moreover have "\<forall>ie\<in>set (take (length ?ies) ?ies). ?ok ie"
      using None by (auto simp: find_None_iff)
    ultimately show ?thesis by blast
  next
    case (Some ie)
    then have "final_state (consolidate_vt is_dir open_jar vt st) =
               after_steps is_dir vt (take (length (takeWhile ?ok ?ies)) ?ies) st"
      by (simp add: consolidate_vt_eq final_state_def takeWhile_eq_take [symmetric])
    moreover have "\<forall>ie\<in>set (take (length (takeWhile ?ok ?ies)) ?ies). ?ok ie"
      by (metis set_takeWhileD takeWhile_eq_take)
    ultimately show ?thesis by blast
  qed
qed

lemma after_steps_frame:
  "t \<noteq> target vt \<Longrightarrow>
   classpath_products (after_steps is_dir vt ies st) t = classpath_products st t"
  by (simp add: after_steps_def)

lemma consolidate_vt_frame:
  "t \<noteq> target vt \<Longrightarrow>
   classpath_products (final_state (consolidate_vt is_dir open_jar vt st)) t =
   classpath_products st t"
  using consolidate_vt_final [of is_dir open_jar vt st] by (auto simp: after_steps_frame)

lemma step_writes_sound:
  assumes "\<forall>ie\<in>set ies. \<not> write_fails is_dir open_jar vt ie"
    and "w \<in> set (step_writes is_dir vt ies)"
  shows "is_dir (snd w) \<and> open_jar (fst w) (snd w) \<and> \<not> valid vt"
  using assms by (auto simp: step_writes_def write_fails_def split: if_splits)

lemma consolidate_vt_jars:
  "\<exists>ws. jars (final_state (consolidate_vt is_dir open_jar vt st)) = jars st @ ws
        \<and> (\<forall>w\<in>set ws. is_dir (snd w) \<and> open_jar (fst w) (snd w) \<and> \<not> valid vt)"
proof -
  obtain n where
    f: "final_state (consolidate_vt is_dir open_jar vt st) =
          after_steps is_dir vt (take n (List.enumerate 0 (classpath_products st (target vt)))) st"
    and ok: "\<forall>ie\<in>set (take n (List.enumerate 0 (classpath_products st (target vt)))).
               \<not> write_fails is_dir open_jar vt ie"
    using consolidate_vt_final [of is_dir open_jar vt st] by blast
  have "jars (final_state (consolidate_vt is_dir open_jar vt st)) =
          jars st @ step_writes is_dir vt
            (take n (List.enumerate 0 (classpath_products st (target vt))))"
    by (simp add: f after_steps_def)
  with step_writes_sound [OF ok] show ?thesis by blast
qed

lemma replace_step_nondir:
  "\<forall>e\<in>snd ` set ies. \<not> is_dir (snd e) \<Longrightarrow> foldl (replace_step is_dir rd) cur ies = cur"
  by (induction ies arbitrary: cur) (simp_all add: replace_step_def)

lemma consolidate_vt_no_directory:
  assumes "\<forall>e\<in>set (classpath_products st (target vt)). \<not> is_dir (snd e)"
  shows "consolidate_vt is_dir open_jar vt st = Inr st"
proof -
  let ?ies = "List.enumerate 0 (classpath_products st (target vt))"
  have s: "snd ` set ?ies = set (classpath_products st (target vt))"
    by (metis map_snd_enumerate set_map)
  have nd: "\<forall>ie\<in>set ?ies. \<not> is_dir (snd (snd ie))"
    using assms s by auto
  then have "find (write_fails is_dir open_jar vt) ?ies = None"
    by (auto simp: find_None_iff write_fails_def)
  moreover have "filter (\<lambda>ie. is_dir (snd (snd ie))) ?ies = []"
    using nd by (simp add: filter_empty_conv)
  moreover have "foldl (replace_step is_dir (results_dir vt))
                   (classpath_products st (target vt)) ?ies = classpath_products st (target vt)"
    using assms s by (intro replace_step_nondir) simp
  ultimately show ?thesis
    by (simp add: consolidate_vt_eq after_steps_def step_writes_def)
qed

lemma consolidate_vt_success:
  assumes "consolidate_vt is_dir open_jar vt st = Inr st1"
    and "archives_not_dirs is_dir (results_dir vt)"
  shows "classpath_products st1 =
           (classpath_products st)
             (target vt := consolidated_entries is_dir (results_dir vt)
                             (classpath_products st (target vt)))"
    and "jars st1 = jars st @
           (if valid vt then []
            else map (\<lambda>i. (jarpath (results_dir vt) i, snd (classpath_products st (target vt) ! i)))
                   (directory_positions is_dir (classpath_products st (target vt))))"
proof -
  let ?es = "classpath_products st (target vt)"
  have st1: "st1 = after_steps is_dir vt (List.enumerate 0 ?es) st"
    using assms(1) by (simp add: consolidate_vt_eq Let_def split: option.splits)
  show "classpath_products st1 =
          (classpath_products st)(target vt := consolidated_entries is_dir (results_dir vt) ?es)"
    by (simp add: st1 after_steps_def foldl_replace_step_enumerate [OF assms(2)])
  show "jars st1 = jars st @
           (if valid vt then []
            else map (\<lambda>i. (jarpath (results_dir vt) i, snd (?es ! i)))
                   (directory_positions is_dir ?es))"
    by (simp add: st1 after_steps_def step_writes_def enumerate_map_nth filter_map o_def
        directory_positions_def)
qed

lemma consolidated_entries_no_directory:
  "archives_not_dirs is_dir rd \<Longrightarrow> e \<in> set (consolidated_entries is_dir rd es) \<Longrightarrow> \<not> is_dir (snd e)"
  by (auto simp: consolidated_entries_def archives_not_dirs_def not_directory_def)

lemma consolidated_entries_idem:
  "\<forall>e\<in>set es. \<not> is_dir (snd e) \<Longrightarrow> consolidated_entries is_dir rd es = es"
  by (simp add: consolidated_entries_def directory_positions_def not_directory_def
      filter_empty_conv)

lemma not_directory_fun: "not_directory is_dir = (\<lambda>e. \<not> is_dir (snd e))"
  by (rule ext) (simp add: not_directory_def)

lemma length_consolidated_entries:
  "length (consolidated_entries is_dir rd es) = length es"
proof -
  have "map (\<lambda>i. es ! i) (filter (\<lambda>i. is_dir (snd (es ! i))) [0..<length es]) =
        filter (\<lambda>e. is_dir (snd e)) (map (\<lambda>i. es ! i) [0..<length es])"
    by (simp add: filter_map o_def)
  then have "length (filter (\<lambda>i. is_dir (snd (es ! i))) [0..<length es]) =
        length (filter (\<lambda>e. is_dir (snd e)) es)"
    by (metis length_map map_nth)
  then show ?thesis
    using sum_length_filter_compl [of "\<lambda>e. is_dir (snd e)" es]
    by (simp add: consolidated_entries_def directory_positions_def not_directory_fun)
qed



lemma filter_nondir_replace_step:
  "\<exists>new. filter (not_directory is_dir) (foldl (replace_step is_dir rd) cur ies) =
         filter (not_directory is_dir) cur @ new"
proof (induction ies arbitrary: cur)
  case Nil
  show ?case by simp
next
  case (Cons ie ies)
  have "filter (not_directory is_dir) (replace_step is_dir rd cur ie) =
        filter (not_directory is_dir) cur @
        (if is_dir (snd (snd ie))
         then filter (not_directory is_dir) [(fst (snd ie), jarpath rd (fst ie))] else [])"
  proof (cases "is_dir (snd (snd ie))")
    case True
    have "filter (not_directory is_dir) (removeAll (snd ie) cur) =
          filter (not_directory is_dir) cur"
      unfolding removeAll_filter_not_eq filter_filter
      by (rule filter_cong [OF refl]) (use True in \<open>auto simp: not_directory_def\<close>)
    with True show ?thesis by (simp add: replace_step_def)
  next
    case False
    then show ?thesis by (simp add: replace_step_def)
  qed
  note step = this
  obtain new where
    "filter (not_directory is_dir) (foldl (replace_step is_dir rd) (replace_step is_dir rd cur ie) ies) =
     filter (not_directory is_dir) (replace_step is_dir rd cur ie) @ new"
    using Cons.IH [of "replace_step is_dir rd cur ie"] by blast
  then have "filter (not_directory is_dir) (foldl (replace_step is_dir rd) cur (ie # ies)) =
     filter (not_directory is_dir) cur @
       ((if is_dir (snd (snd ie))
         then filter (not_directory is_dir) [(fst (snd ie), jarpath rd (fst ie))] else []) @ new)"
    by (simp only: foldl_Cons step append_assoc)
  then show ?case ..
qed

lemma consolidate_vt_keeps_nondir:
  "prefix (filter (not_directory is_dir) (classpath_products st t))
     (filter (not_directory is_dir)
        (classpath_products (final_state (consolidate_vt is_dir open_jar vt st)) t))"
proof (cases "t = target vt")
  case False
  then show ?thesis by (simp add: consolidate_vt_frame)
next
  case True
  obtain n where
    f: "final_state (consolidate_vt is_dir open_jar vt st) =
          after_steps is_dir vt (take n (List.enumerate 0 (classpath_products st (target vt)))) st"
    using consolidate_vt_final [of is_dir open_jar vt st] by blast
  obtain new where
    "filter (not_directory is_dir)
       (foldl (replace_step is_dir (results_dir vt)) (classpath_products st (target vt))
          (take n (List.enumerate 0 (classpath_products st (target vt))))) =
     filter (not_directory is_dir) (classpath_products st (target vt)) @ new"
    using filter_nondir_replace_step by blast
  then show ?thesis
    by (simp add: f True after_steps_def)
qed

subsection \<open>The outer loop\<close>

lemma consolidate_vts_append:
  "consolidate_vts is_dir open_jar (xs @ ys) st =
     (case consolidate_vts is_dir open_jar xs st of
        Inl raised \<Rightarrow> Inl raised
      | Inr st1 \<Rightarrow> consolidate_vts is_dir open_jar ys st1)"
  by (induction xs arbitrary: st) (simp_all split: sum.splits)

lemma final_state_simps:
  "final_state (Inr st) = st" "final_state (Inl (e, st)) = st"
  by (simp_all add: final_state_def)

lemma consolidate_vts_step:
  "final_state (consolidate_vts is_dir open_jar (vt # vts) st) =
     (case consolidate_vt is_dir open_jar vt st of
        Inl raised \<Rightarrow> final_state (consolidate_vt is_dir open_jar vt st)
      | Inr st1 \<Rightarrow> final_state (consolidate_vts is_dir open_jar vts st1))"
  by (simp split: sum.splits)

lemma consolidate_vts_frame:
  "t \<notin> target ` set vts \<Longrightarrow>
   classpath_products (final_state (consolidate_vts is_dir open_jar vts st)) t =
   classpath_products st t"
proof (induction vts arbitrary: st)
  case Nil
  show ?case by (simp add: final_state_simps)
next
  case (Cons vt vts)
  from Cons.prems have ne: "t \<noteq> target vt" and rest: "t \<notin> target ` set vts" by auto
  show ?case
  proof (cases "consolidate_vt is_dir open_jar vt st")
    case (Inl raised)
    with consolidate_vt_frame [OF ne, of is_dir open_jar st] show ?thesis
      by (simp add: consolidate_vts_step)
  next
    case (Inr st1)
    with consolidate_vt_frame [OF ne, of is_dir open_jar st] Cons.IH [OF rest, of st1]
    show ?thesis by (simp add: consolidate_vts_step final_state_simps)
  qed
qed

lemma consolidate_vts_keeps_nondir:
  "prefix (filter (not_directory is_dir) (classpath_products st t))
     (filter (not_directory is_dir)
        (classpath_products (final_state (consolidate_vts is_dir open_jar vts st)) t))"
proof (induction vts arbitrary: st)
  case Nil
  show ?case by (simp add: final_state_simps)
next
  case (Cons vt vts)
  show ?case
  proof (cases "consolidate_vt is_dir open_jar vt st")
    case (Inl raised)
    with consolidate_vt_keeps_nondir [of is_dir st t open_jar vt] show ?thesis
      by (simp add: consolidate_vts_step)
  next
    case (Inr st1)
    with consolidate_vt_keeps_nondir [of is_dir st t open_jar vt] Cons.IH [of st1]
    show ?thesis
      by (auto simp: consolidate_vts_step final_state_simps intro: prefix_order.trans)
  qed
qed

lemma consolidate_vts_jars:
  "\<exists>ws. jars (final_state (consolidate_vts is_dir open_jar vts st)) = jars st @ ws
        \<and> (\<forall>w\<in>set ws. is_dir (snd w) \<and> open_jar (fst w) (snd w))"
proof (induction vts arbitrary: st)
  case Nil
  show ?case by (simp add: final_state_simps)
next
  case (Cons vt vts)
  obtain ws where ws: "jars (final_state (consolidate_vt is_dir open_jar vt st)) = jars st @ ws"
    "\<forall>w\<in>set ws. is_dir (snd w) \<and> open_jar (fst w) (snd w)"
    using consolidate_vt_jars [of is_dir open_jar vt st] by blast
  show ?case
  proof (cases "consolidate_vt is_dir open_jar vt st")
    case (Inl raised)
    with ws show ?thesis by (auto simp: consolidate_vts_step)
  next
    case (Inr st1)
    obtain ws' where ws': "jars (final_state (consolidate_vts is_dir open_jar vts st1)) = jars st1 @ ws'"
      "\<forall>w\<in>set ws'. is_dir (snd w) \<and> open_jar (fst w) (snd w)"
      using Cons.IH [of st1] by blast
    from Inr ws have "jars st1 = jars st @ ws" by (simp add: final_state_simps)
    with ws' ws(2) Inr have
      "jars (final_state (consolidate_vts is_dir open_jar (vt # vts) st)) = jars st @ (ws @ ws')
       \<and> (\<forall>w\<in>set (ws @ ws'). is_dir (snd w) \<and> open_jar (fst w) (snd w))"
      by (auto simp: consolidate_vts_step)
    then show ?thesis by blast
  qed
qed

subsection \<open>The candidate classifier\<close>

lemma has_directory_entry_iff:
  "has_directory_entry is_dir es \<longleftrightarrow> (\<exists>e\<in>set es. is_dir (snd e))"
  by (induction is_dir es rule: has_directory_entry.induct) auto

lemma entries_examined_eq:
  "entries_examined is_dir es =
     takeWhile (not_directory is_dir) es @ take 1 (dropWhile (not_directory is_dir) es)"
  by (induction is_dir es rule: entries_examined.induct) (auto simp: not_directory_def)

lemma candidates_filter:
  "find_consolidate_classpath_candidates is_dir cp ts =
     filter (\<lambda>t. \<exists>e\<in>set (cp t). is_dir (snd e)) ts"
  by (simp add: find_consolidate_classpath_candidates_def find_candidates_loop_filter
      has_directory_entry_iff)

lemma count_list_filter:
  "count_list (filter P xs) x = (if P x then count_list xs x else 0)"
  by (induction xs) auto

text \<open>
  Claim C7 (classifier correctness). A target of the input list is selected if and only
  if some entry of its whole entry sequence, whatever its conf, has a directory path. A
  target with an empty sequence is never selected. The scan of one sequence answers
  whether a directory is there, and asks \<open>is_dir\<close> only about the entries up to and
  including the first directory. The classifier returns the list of candidates and
  nothing else: the manifest it read is the argument \<open>cp\<close>, unchanged.
\<close>

theorem classifier_selects_targets_with_a_directory:
  "(t \<in> set (find_consolidate_classpath_candidates is_dir cp ts) \<longleftrightarrow>
      t \<in> set ts \<and> (\<exists>e\<in>set (cp t). is_dir (snd e)))
   \<and> (cp t = [] \<longrightarrow> t \<notin> set (find_consolidate_classpath_candidates is_dir cp ts))
   \<and> (has_directory_entry is_dir es \<longleftrightarrow> (\<exists>e\<in>set es. is_dir (snd e)))
   \<and> entries_examined is_dir es =
       takeWhile (not_directory is_dir) es @ take 1 (dropWhile (not_directory is_dir) es)"
  by (simp add: candidates_filter has_directory_entry_iff entries_examined_eq)

theorem classifier_selects_targets_with_a_directory_witness:
  "find_consolidate_classpath_candidates ex_is_dir ex_classpath [1, 2, 3, 4] = [1, 3]
   \<and> ex_classpath 4 = []
   \<and> 4 \<notin> set (find_consolidate_classpath_candidates ex_is_dir ex_classpath [1, 2, 3, 4])
   \<and> entries_examined ex_is_dir (ex_classpath 1) =
       [(''default'', ''/lib/a.jar''), (''default'', ''/build/T1/classes'')]"
  using classifier_selects_targets_with_a_directory
    [of 4 ex_is_dir ex_classpath "[1, 2, 3, 4]" "ex_classpath 1"]
  by (simp add: ex_is_dir_def ex_classpath_def not_directory_def
      find_consolidate_classpath_candidates_def get_internal_classpath_entries_for_targets_def)

text \<open>
  Claim C10, as stated, fails: a target that occurs twice in the input list and has a
  directory entry is appended twice. Target 1 of the example has one.
\<close>

theorem candidates_repeat_a_repeated_target:
  "find_consolidate_classpath_candidates ex_is_dir ex_classpath [1, 1] = [1, 1]
   \<and> count_list (find_consolidate_classpath_candidates ex_is_dir ex_classpath [1, 1]) 1 = 2"
  by (simp add: ex_is_dir_def ex_classpath_def
      find_consolidate_classpath_candidates_def get_internal_classpath_entries_for_targets_def)

text \<open>
  Claim C10, amended. The candidate list is the input list with the targets that have no
  directory entry left out: it keeps the relative order of the input, and a selected
  target occurs in it exactly as often as in the input, however many directory entries
  the target has (the inner loop breaks at the first). So it holds every selected target
  exactly once when the input list has no repeated target.
\<close>

theorem candidates_keep_order_and_multiplicity:
  "find_consolidate_classpath_candidates is_dir cp ts =
     filter (\<lambda>t. has_directory_entry is_dir (cp t)) ts
   \<and> subseq (find_consolidate_classpath_candidates is_dir cp ts) ts
   \<and> count_list (find_consolidate_classpath_candidates is_dir cp ts) t =
       (if has_directory_entry is_dir (cp t) then count_list ts t else 0)
   \<and> (distinct ts \<longrightarrow> distinct (find_consolidate_classpath_candidates is_dir cp ts))"
  by (simp add: find_consolidate_classpath_candidates_def find_candidates_loop_filter
      count_list_filter)

theorem candidates_keep_order_and_multiplicity_witness:
  "distinct [3, 2, 1 :: nat]
   \<and> find_consolidate_classpath_candidates ex_is_dir ex_classpath [3, 2, 1] = [3, 1]
   \<and> count_list (find_consolidate_classpath_candidates ex_is_dir ex_classpath [3, 2, 1]) 3 = 1
   \<and> distinct (find_consolidate_classpath_candidates ex_is_dir ex_classpath [3, 2, 1])"
  using candidates_keep_order_and_multiplicity [of ex_is_dir ex_classpath "[3, 2, 1]" 3]
  by (simp add: ex_is_dir_def ex_classpath_def)

subsection \<open>Runs of the outer loop in closed form\<close>

lemma consolidate_vts_success:
  assumes "consolidate_vts is_dir open_jar (invalidated oracle ts) st = Inr st'"
    and "\<forall>t\<in>set ts. archives_not_dirs is_dir (snd (oracle t))"
  shows "classpath_products st' t =
           (if t \<in> set ts
            then consolidated_entries is_dir (snd (oracle t)) (classpath_products st t)
            else classpath_products st t)"
  using assms
proof (induction ts arbitrary: st)
  case Nil
  then show ?case by (simp add: invalidated_def)
next
  case (Cons a ts)
  let ?vt = "\<lparr>target = a, valid = fst (oracle a), results_dir = snd (oracle a)\<rparr>"
  from Cons.prems(1) obtain st1 where
    one: "consolidate_vt is_dir open_jar ?vt st = Inr st1"
    and rest: "consolidate_vts is_dir open_jar (invalidated oracle ts) st1 = Inr st'"
    by (auto simp: invalidated_def split: sum.splits)
  from Cons.prems(2) have arch: "archives_not_dirs is_dir (snd (oracle a))"
    and archs: "\<forall>t\<in>set ts. archives_not_dirs is_dir (snd (oracle t))"
    by simp_all
  have st1: "classpath_products st1 =
               (classpath_products st)
                 (a := consolidated_entries is_dir (snd (oracle a)) (classpath_products st a))"
    using consolidate_vt_success(1) [OF one] arch by simp
  have again: "consolidated_entries is_dir (snd (oracle a))
                 (consolidated_entries is_dir (snd (oracle a)) (classpath_products st a)) =
               consolidated_entries is_dir (snd (oracle a)) (classpath_products st a)"
    using consolidated_entries_no_directory [OF arch]
    by (intro consolidated_entries_idem) blast
  show ?case
    using Cons.IH [OF rest archs] by (simp add: st1 again)
qed

lemma consolidate_vts_untouched:
  assumes "\<forall>e\<in>set (classpath_products st t). \<not> is_dir (snd e)"
  shows "classpath_products (final_state (consolidate_vts is_dir open_jar vts st)) t =
         classpath_products st t"
  using assms
proof (induction vts arbitrary: st)
  case Nil
  show ?case by (simp add: final_state_simps)
next
  case (Cons vt vts)
  show ?case
  proof (cases "target vt = t")
    case True
    with Cons.prems have "consolidate_vt is_dir open_jar vt st = Inr st"
      by (intro consolidate_vt_no_directory) simp
    with Cons.IH [OF Cons.prems] show ?thesis
      by (simp add: consolidate_vts_step)
  next
    case False
    then have fr: "classpath_products (final_state (consolidate_vt is_dir open_jar vt st)) t =
                   classpath_products st t"
      by (intro consolidate_vt_frame) simp
    show ?thesis
    proof (cases "consolidate_vt is_dir open_jar vt st")
      case (Inl raised)
      with fr show ?thesis by (simp add: consolidate_vts_step)
    next
      case (Inr st1)
      with fr have same: "classpath_products st1 t = classpath_products st t"
        by (simp add: final_state_simps)
      with Cons.prems have "\<forall>e\<in>set (classpath_products st1 t). \<not> is_dir (snd e)" by simp
      from Cons.IH [OF this] Inr same show ?thesis
        by (simp add: consolidate_vts_step)
    qed
  qed
qed

lemma consolidate_vt_raises:
  assumes "\<not> valid vt"
    and "i < length (classpath_products st (target vt))"
    and "is_dir (snd (classpath_products st (target vt) ! i))"
    and "\<not> open_jar (jarpath (results_dir vt) i) (snd (classpath_products st (target vt) ! i))"
  shows "\<exists>j st2. consolidate_vt is_dir open_jar vt st =
                    Inl (TaskError (jarpath (results_dir vt) j), st2)
               \<and> j \<le> i
               \<and> is_dir (snd (classpath_products st (target vt) ! j))
               \<and> \<not> open_jar (jarpath (results_dir vt) j)
                     (snd (classpath_products st (target vt) ! j))"
proof -
  let ?es = "classpath_products st (target vt)"
  let ?ies = "List.enumerate 0 ?es"
  let ?P = "write_fails is_dir open_jar vt"
  have nth: "?ies ! k = (k, ?es ! k)" if "k < length ?es" for k
    using that by (simp add: nth_enumerate_eq)
  have Pi: "?P (?ies ! i)"
    using assms by (simp add: nth write_fails_def)
  have "?ies ! i \<in> set ?ies"
    using assms(2) by (intro nth_mem) simp
  with Pi have "find ?P ?ies \<noteq> None"
    unfolding find_None_iff by blast
  then obtain ie where found: "find ?P ?ies = Some ie" by blast
  then obtain k where k: "k < length ?ies" "?P (?ies ! k)" "ie = ?ies ! k"
    "\<forall>j<k. \<not> ?P (?ies ! j)"
    by (auto simp: find_Some_iff)
  have "k \<le> i"
    using k(4) Pi by (meson not_le)
  moreover have ie: "ie = (k, ?es ! k)"
    using k(1,3) by (simp add: nth)
  moreover from ie k(2,3) have "is_dir (snd (?es ! k))"
    "\<not> open_jar (jarpath (results_dir vt) k) (snd (?es ! k))"
    by (simp_all add: write_fails_def)
  ultimately show ?thesis
    using found by (auto simp: consolidate_vt_eq)
qed

subsection \<open>The example run, evaluated\<close>

lemma ex_archives: "archives_not_dirs ex_is_dir (snd (ex_oracle t))"
  by (simp add: archives_not_dirs_def ex_is_dir_def ex_oracle_def jarpath_def os_path_join_def)

lemma str_Suc_0: "str (Suc 0) = ''1''"
  using str_1 by simp

lemmas ex_defs = Let_def str_Suc_0
  consolidate_classpath_def invalidated_def consolidate_vt_def
  get_internal_classpath_entries_for_targets_def jar_write_def remove_for_target_def
  add_for_target_def os_path_join_def str_0 str_1 str_2 str_3
  ex_is_dir_def ex_classpath_def ex_oracle_def ex_state_def

lemma ex_run_13:
  "consolidate_classpath ex_is_dir (\<lambda>jarpath src. True) ex_oracle [1, 3] ex_state =
     Inr \<lparr>classpath_products = ex_classpath
            (1 := [(''default'', ''/lib/a.jar''), (''shaded'', ''/lib/b.jar''),
                   (''default'', ''/out/T1/output-1.jar'')],
             3 := [(''default'', ''/out/T3/output-0.jar''),
                   (''shaded'', ''/out/T3/output-1.jar'')]),
          jars = [(''/out/T1/output-1.jar'', ''/build/T1/classes'')]\<rparr>"
  by (simp add: ex_defs)

subsection \<open>A successful run\<close>

lemma consolidate_classpath_success:
  assumes "consolidate_classpath is_dir open_jar oracle ts st = Inr st'"
    and "\<forall>t\<in>set ts. archives_not_dirs is_dir (snd (oracle t))"
  shows "classpath_products st' t =
           (if t \<in> set ts
            then consolidated_entries is_dir (snd (oracle t)) (classpath_products st t)
            else classpath_products st t)"
  using consolidate_vts_success [of is_dir open_jar "oracle" ts st "st'" t] assms
  by (simp add: consolidate_classpath_def)

lemma directory_position_iff:
  "i \<in> set (directory_positions is_dir es) \<longleftrightarrow> i < length es \<and> is_dir (snd (es ! i))"
  by (auto simp: directory_positions_def)

lemma consolidated_entries_replaced:
  assumes "archives_not_dirs is_dir rd" and "i < length es" and "is_dir (snd (es ! i))"
  shows "es ! i \<notin> set (consolidated_entries is_dir rd es)
         \<and> (fst (es ! i), jarpath rd i) \<in> set (consolidated_entries is_dir rd es)"
proof -
  have "es ! i \<notin> set (consolidated_entries is_dir rd es)"
    using consolidated_entries_no_directory [OF assms(1)] assms(3) by blast
  moreover have "i \<in> set (directory_positions is_dir es)"
    using assms(2,3) by (simp add: directory_position_iff)
  then have "(fst (es ! i), jarpath rd i) \<in> set (consolidated_entries is_dir rd es)"
    by (auto simp: consolidated_entries_def)
  ultimately show ?thesis by blast
qed

text \<open>
  Claim C1 (completeness). After a successful run of \<^verbatim>\<open>_consolidate_classpath\<close> over
  the targets \<open>ts\<close>, no entry of a processed target has a directory path, and every
  directory entry the target had is gone and replaced by the archive entry of its
  position under the same conf. The file system is taken as the task expects it: the
  archive paths under the results directories are not directories.
\<close>

theorem consolidation_leaves_no_directory_entry:
  assumes "consolidate_classpath is_dir open_jar oracle ts st = Inr st'"
    and "\<forall>t\<in>set ts. archives_not_dirs is_dir (snd (oracle t))"
    and "t \<in> set ts"
  shows "(\<forall>e\<in>set (classpath_products st' t). \<not> is_dir (snd e)) \<and>
         (\<forall>i<length (classpath_products st t).
            is_dir (snd (classpath_products st t ! i)) \<longrightarrow>
              classpath_products st t ! i \<notin> set (classpath_products st' t) \<and>
              (fst (classpath_products st t ! i), jarpath (snd (oracle t)) i)
                \<in> set (classpath_products st' t))"
proof -
  have arch: "archives_not_dirs is_dir (snd (oracle t))"
    using assms(2,3) by blast
  have cp: "classpath_products st' t =
              consolidated_entries is_dir (snd (oracle t)) (classpath_products st t)"
    using consolidate_classpath_success [OF assms(1,2), of t] assms(3) by simp
  show ?thesis
    unfolding cp
    using consolidated_entries_no_directory [OF arch] consolidated_entries_replaced [OF arch]
    by blast
qed

theorem consolidation_leaves_no_directory_entry_witness:
  "archives_not_dirs ex_is_dir (snd (ex_oracle 1))
   \<and> archives_not_dirs ex_is_dir (snd (ex_oracle 3))
   \<and> \<not> isl (consolidate_classpath ex_is_dir (\<lambda>jarpath src. True) ex_oracle [1, 3] ex_state)
   \<and> ex_is_dir (snd (classpath_products ex_state 1 ! 1))
   \<and> list_all (\<lambda>e. \<not> ex_is_dir (snd e))
        (classpath_products
           (final_state (consolidate_classpath ex_is_dir (\<lambda>jarpath src. True) ex_oracle [1, 3] ex_state)) 1)
   \<and> (''default'', ''/out/T1/output-1.jar'')
        \<in> set (classpath_products
           (final_state (consolidate_classpath ex_is_dir (\<lambda>jarpath src. True) ex_oracle [1, 3] ex_state)) 1)"
proof -
  let ?run = "consolidate_classpath ex_is_dir (\<lambda>jarpath src. True) ex_oracle [1, 3] ex_state"
  obtain st' where run: "?run = Inr st'"
    using ex_run_13 by simp
  have arch: "\<forall>t\<in>set [1, 3]. archives_not_dirs ex_is_dir (snd (ex_oracle t))"
    using ex_archives by simp
  have "\<forall>e\<in>set (classpath_products st' 1). \<not> ex_is_dir (snd e)"
    using consolidation_leaves_no_directory_entry [OF run arch, of 1] by simp
  then have clean: "list_all (\<lambda>e. \<not> ex_is_dir (snd e)) (classpath_products st' 1)"
    by (simp add: list_all_iff)
  have archive: "(''default'', ''/out/T1/output-1.jar'') \<in> set (classpath_products st' 1)"
    using run [unfolded ex_run_13] by auto
  have dir: "ex_is_dir (snd (classpath_products ex_state 1 ! 1))"
    by (simp add: ex_state_def ex_classpath_def ex_is_dir_def)
  show ?thesis
    unfolding run using clean archive dir ex_archives by (simp add: final_state_simps)
qed

subsection \<open>Archive paths\<close>



subsection \<open>Valid targets\<close>

lemma consolidate_vt_valid:
  assumes "valid vt"
  shows "consolidate_vt is_dir open_jar vt st =
           Inr (after_steps is_dir vt (List.enumerate 0 (classpath_products st (target vt))) st)"
proof -
  have "find (write_fails is_dir open_jar vt)
          (List.enumerate 0 (classpath_products st (target vt))) = None"
    using assms by (simp add: find_None_iff write_fails_def)
  then show ?thesis by (simp add: consolidate_vt_eq)
qed

lemma consolidate_classpath_snoc:
  "consolidate_classpath is_dir open_jar oracle (pre @ t # post) st =
     (case consolidate_classpath is_dir open_jar oracle pre st of
        Inl raised \<Rightarrow> Inl raised
      | Inr st1 \<Rightarrow>
          (case consolidate_vt is_dir open_jar
                  \<lparr>target = t, valid = fst (oracle t), results_dir = snd (oracle t)\<rparr> st1 of
             Inl raised \<Rightarrow> Inl raised
           | Inr st2 \<Rightarrow> consolidate_classpath is_dir open_jar oracle post st2))"
  by (simp add: consolidate_classpath_def invalidated_def consolidate_vts_append
      split: sum.splits)

text \<open>
  Claim C3 (skip on valid). Wherever in the run a target with a valid token is processed,
  its processing returns without a single jar written, whatever the jar tool would have
  answered, and still rewrites the manifest: no directory entry of the target is left,
  and each is replaced by the archive entry of its position under the same conf.
\<close>

theorem valid_target_is_rewritten_without_a_write:
  assumes "consolidate_classpath is_dir open_jar oracle pre st = Inr st1"
    and "fst (oracle t)"
    and "archives_not_dirs is_dir (snd (oracle t))"
  shows "\<exists>st2. consolidate_classpath is_dir open_jar oracle (pre @ [t]) st = Inr st2
           \<and> jars st2 = jars st1
           \<and> (\<forall>e\<in>set (classpath_products st2 t). \<not> is_dir (snd e))
           \<and> (\<forall>i<length (classpath_products st1 t).
                 is_dir (snd (classpath_products st1 t ! i)) \<longrightarrow>
                   classpath_products st1 t ! i \<notin> set (classpath_products st2 t) \<and>
                   (fst (classpath_products st1 t ! i), jarpath (snd (oracle t)) i)
                     \<in> set (classpath_products st2 t))"
proof -
  let ?vt = "\<lparr>target = t, valid = fst (oracle t), results_dir = snd (oracle t)\<rparr>"
  obtain st2 where one: "consolidate_vt is_dir open_jar ?vt st1 = Inr st2"
    using consolidate_vt_valid [of ?vt is_dir open_jar st1] assms(2) by simp
  have run: "consolidate_classpath is_dir open_jar oracle (pre @ [t]) st = Inr st2"
    using assms(1) one
    by (simp add: consolidate_classpath_snoc) (simp add: consolidate_classpath_def invalidated_def)
  have cp: "classpath_products st2 t =
              consolidated_entries is_dir (snd (oracle t)) (classpath_products st1 t)"
    using consolidate_vt_success(1) [OF one] assms(3) by simp
  have same_jars: "jars st2 = jars st1"
    using consolidate_vt_success(2) [OF one] assms(2,3) by simp
  have clean: "\<forall>e\<in>set (classpath_products st2 t). \<not> is_dir (snd e)"
    unfolding cp using consolidated_entries_no_directory [OF assms(3)] by blast
  have replaced: "\<forall>i<length (classpath_products st1 t).
                 is_dir (snd (classpath_products st1 t ! i)) \<longrightarrow>
                   classpath_products st1 t ! i \<notin> set (classpath_products st2 t) \<and>
                   (fst (classpath_products st1 t ! i), jarpath (snd (oracle t)) i)
                     \<in> set (classpath_products st2 t)"
    unfolding cp using consolidated_entries_replaced [OF assms(3)] by blast
  from run same_jars clean replaced show ?thesis
    by (intro exI [of _ st2] conjI)
qed

lemma ex_run_2_no_jar_tool:
  "consolidate_classpath ex_is_dir (\<lambda>jarpath src. False) ex_oracle [2] ex_state = Inr ex_state"
  by (simp add: ex_defs)

lemma ex_run_23_no_jar_tool:
  "consolidate_classpath ex_is_dir (\<lambda>jarpath src. False) ex_oracle ([2] @ [3]) ex_state =
     Inr \<lparr>classpath_products = ex_classpath
            (3 := [(''default'', ''/out/T3/output-0.jar''),
                   (''shaded'', ''/out/T3/output-1.jar'')]),
          jars = []\<rparr>"
  by (simp add: ex_defs)

theorem valid_target_is_rewritten_without_a_write_witness:
  "fst (ex_oracle 3)
   \<and> archives_not_dirs ex_is_dir (snd (ex_oracle 3))
   \<and> \<not> isl (consolidate_classpath ex_is_dir (\<lambda>jarpath src. False) ex_oracle [2] ex_state)
   \<and> \<not> isl (consolidate_classpath ex_is_dir (\<lambda>jarpath src. False) ex_oracle ([2] @ [3]) ex_state)
   \<and> jars (final_state
        (consolidate_classpath ex_is_dir (\<lambda>jarpath src. False) ex_oracle ([2] @ [3]) ex_state)) =
       jars ex_state
   \<and> list_all (\<lambda>e. \<not> ex_is_dir (snd e))
        (classpath_products (final_state
           (consolidate_classpath ex_is_dir (\<lambda>jarpath src. False) ex_oracle ([2] @ [3]) ex_state)) 3)
   \<and> ex_is_dir (snd (classpath_products ex_state 3 ! 0))
   \<and> classpath_products (final_state
           (consolidate_classpath ex_is_dir (\<lambda>jarpath src. False) ex_oracle ([2] @ [3]) ex_state)) 3 =
       [(''default'', ''/out/T3/output-0.jar''), (''shaded'', ''/out/T3/output-1.jar'')]"
proof -
  have dir: "ex_is_dir (snd (classpath_products ex_state 3 ! 0))"
    by (simp add: ex_state_def ex_classpath_def ex_is_dir_def)
  have valid3: "fst (ex_oracle 3)"
    by (simp add: ex_oracle_def)
  obtain st2 where
    run: "consolidate_classpath ex_is_dir (\<lambda>jarpath src. False) ex_oracle ([2] @ [3]) ex_state = Inr st2"
    and j: "jars st2 = jars ex_state"
    and clean: "\<forall>e\<in>set (classpath_products st2 3). \<not> ex_is_dir (snd e)"
    using valid_target_is_rewritten_without_a_write [OF ex_run_2_no_jar_tool valid3 ex_archives]
    by blast
  have cp3: "classpath_products st2 3 =
      [(''default'', ''/out/T3/output-0.jar''), (''shaded'', ''/out/T3/output-1.jar'')]"
    using run [unfolded ex_run_23_no_jar_tool] by auto
  from clean have "list_all (\<lambda>e. \<not> ex_is_dir (snd e)) (classpath_products st2 3)"
    by (simp add: list_all_iff)
  with j valid3 ex_archives dir cp3 show ?thesis
    unfolding run ex_run_2_no_jar_tool by (simp add: final_state_simps)
qed

subsection \<open>Entries that are not directories\<close>

lemma consolidated_entries_kept:
  "take (length (filter (not_directory is_dir) es)) (consolidated_entries is_dir rd es) =
     filter (not_directory is_dir) es
   \<and> (\<forall>e\<in>set (drop (length (filter (not_directory is_dir) es))
                   (consolidated_entries is_dir rd es)).
         \<exists>i<length es. is_dir (snd (es ! i)) \<and> e = (fst (es ! i), jarpath rd i))"
  by (auto simp: consolidated_entries_def directory_position_iff)

text \<open>
  Claim C6 (non-directory passthrough). However the run ends, returning or raising:
  the entries of a target that are not directories are all still there, in their order
  and ahead of every entry the run added; a target without a directory entry has the
  very sequence it had; and every jar written was packed from a directory, so no path
  that is not a directory is ever handed to the jar tool as a source. When the run
  returns (and the archive paths are not directories), a processed target's sequence
  starts with exactly its entries that are not directories, and everything after them
  is the archive entry of one of its directory positions: nothing else was added.
\<close>

theorem entries_that_are_not_directories_pass_through:
  "prefix (filter (not_directory is_dir) (classpath_products st t))
     (filter (not_directory is_dir)
        (classpath_products
           (final_state (consolidate_classpath is_dir open_jar oracle ts st)) t))
   \<and> ((\<forall>e\<in>set (classpath_products st t). \<not> is_dir (snd e)) \<longrightarrow>
         classpath_products
           (final_state (consolidate_classpath is_dir open_jar oracle ts st)) t =
         classpath_products st t)
   \<and> (\<exists>ws. jars (final_state (consolidate_classpath is_dir open_jar oracle ts st)) =
               jars st @ ws
             \<and> (\<forall>w\<in>set ws. is_dir (snd w)))
   \<and> (consolidate_classpath is_dir open_jar oracle ts st = Inr st' \<longrightarrow>
        (\<forall>u\<in>set ts. archives_not_dirs is_dir (snd (oracle u))) \<longrightarrow> t \<in> set ts \<longrightarrow>
          take (length (filter (not_directory is_dir) (classpath_products st t)))
            (classpath_products st' t) =
          filter (not_directory is_dir) (classpath_products st t)
          \<and> (\<forall>e\<in>set (drop (length (filter (not_directory is_dir) (classpath_products st t)))
                          (classpath_products st' t)).
                \<exists>i<length (classpath_products st t).
                  is_dir (snd (classpath_products st t ! i)) \<and>
                  e = (fst (classpath_products st t ! i), jarpath (snd (oracle t)) i)))"
proof -
  let ?run = "consolidate_classpath is_dir open_jar oracle ts st"
  have kept: "prefix (filter (not_directory is_dir) (classpath_products st t))
     (filter (not_directory is_dir) (classpath_products (final_state ?run) t))"
    unfolding consolidate_classpath_def by (rule consolidate_vts_keeps_nondir)
  have untouched: "classpath_products (final_state ?run) t = classpath_products st t"
    if "\<forall>e\<in>set (classpath_products st t). \<not> is_dir (snd e)"
    unfolding consolidate_classpath_def using that by (rule consolidate_vts_untouched)
  have written: "\<exists>ws. jars (final_state ?run) = jars st @ ws \<and> (\<forall>w\<in>set ws. is_dir (snd w))"
    unfolding consolidate_classpath_def
    using consolidate_vts_jars [of is_dir open_jar "invalidated oracle ts" st] by blast
  have returned:
    "take (length (filter (not_directory is_dir) (classpath_products st t)))
            (classpath_products st' t) =
          filter (not_directory is_dir) (classpath_products st t)
          \<and> (\<forall>e\<in>set (drop (length (filter (not_directory is_dir) (classpath_products st t)))
                          (classpath_products st' t)).
                \<exists>i<length (classpath_products st t).
                  is_dir (snd (classpath_products st t ! i)) \<and>
                  e = (fst (classpath_products st t ! i), jarpath (snd (oracle t)) i))"
    if "?run = Inr st'" and "\<forall>u\<in>set ts. archives_not_dirs is_dir (snd (oracle u))"
      and "t \<in> set ts"
  proof -
    have "classpath_products st' t =
            consolidated_entries is_dir (snd (oracle t)) (classpath_products st t)"
      using consolidate_classpath_success [OF that(1,2), of t] that(3) by simp
    then show ?thesis
      using consolidated_entries_kept [of is_dir "classpath_products st t" "snd (oracle t)"]
      by simp
  qed
  show ?thesis
    apply (rule conjI)
     apply (rule kept)
    apply (rule conjI)
     apply (rule impI)
     apply (erule untouched)
    apply (rule conjI)
     apply (rule written)
    apply (intro impI)
    apply (erule (2) returned)
    done
qed


theorem entries_that_are_not_directories_pass_through_witness:
  "archives_not_dirs ex_is_dir (snd (ex_oracle 1))
   \<and> archives_not_dirs ex_is_dir (snd (ex_oracle 3))
   \<and> \<not> isl (consolidate_classpath ex_is_dir (\<lambda>jarpath src. True) ex_oracle [1, 3] ex_state)
   \<and> filter (not_directory ex_is_dir) (classpath_products ex_state 1) =
       [(''default'', ''/lib/a.jar''), (''shaded'', ''/lib/b.jar'')]
   \<and> prefix [(''default'', ''/lib/a.jar''), (''shaded'', ''/lib/b.jar'')]
        (filter (not_directory ex_is_dir)
           (classpath_products
              (final_state
                 (consolidate_classpath ex_is_dir (\<lambda>jarpath src. True) ex_oracle [1, 3] ex_state)) 1))
   \<and> take 2 (classpath_products
        (final_state
           (consolidate_classpath ex_is_dir (\<lambda>jarpath src. True) ex_oracle [1, 3] ex_state)) 1) =
       [(''default'', ''/lib/a.jar''), (''shaded'', ''/lib/b.jar'')]
   \<and> list_all (\<lambda>w. ex_is_dir (snd w))
        (jars (final_state
           (consolidate_classpath ex_is_dir (\<lambda>jarpath src. True) ex_oracle [1, 3] ex_state)))
   \<and> list_all (\<lambda>e. \<not> ex_is_dir (snd e)) (classpath_products ex_state 2)
   \<and> classpath_products
        (final_state
           (consolidate_classpath ex_is_dir (\<lambda>jarpath src. True) ex_oracle [1, 3] ex_state)) 2 =
       classpath_products ex_state 2"
proof -
  let ?run = "consolidate_classpath ex_is_dir (\<lambda>jarpath src. True) ex_oracle [1, 3] ex_state"
  obtain st' where run: "?run = Inr st'"
    using ex_run_13 by simp
  have fin: "final_state ?run = st'"
    unfolding run by (simp add: final_state_simps)
  have arch: "\<forall>u\<in>set [1, 3]. archives_not_dirs ex_is_dir (snd (ex_oracle u))"
    using ex_archives by simp
  have nd1: "filter (not_directory ex_is_dir) (classpath_products ex_state 1) =
       [(''default'', ''/lib/a.jar''), (''shaded'', ''/lib/b.jar'')]"
    by (simp add: ex_state_def ex_classpath_def ex_is_dir_def not_directory_def)
  have nd2: "\<forall>e\<in>set (classpath_products ex_state 2). \<not> ex_is_dir (snd e)"
    by (simp add: ex_state_def ex_classpath_def ex_is_dir_def)
  note at1 = entries_that_are_not_directories_pass_through
    [of ex_is_dir ex_state 1 "\<lambda>jarpath src. True" ex_oracle "[1, 3]" "st'"]
  note at2 = entries_that_are_not_directories_pass_through
    [of ex_is_dir ex_state 2 "\<lambda>jarpath src. True" ex_oracle "[1, 3]" "st'"]
  have kept: "prefix [(''default'', ''/lib/a.jar''), (''shaded'', ''/lib/b.jar'')]
     (filter (not_directory ex_is_dir) (classpath_products (final_state ?run) 1))"
    using at1 [THEN conjunct1] unfolding nd1 .
  have front: "take 2 (classpath_products st' 1) =
       [(''default'', ''/lib/a.jar''), (''shaded'', ''/lib/b.jar'')]"
    using at1 run arch unfolding nd1 by (simp add: numeral_2_eq_2)
  obtain ws where ws: "jars (final_state ?run) = jars ex_state @ ws"
    "\<forall>w\<in>set ws. ex_is_dir (snd w)"
    using at1 by blast
  then have written: "list_all (\<lambda>w. ex_is_dir (snd w)) (jars (final_state ?run))"
    by (simp add: ex_state_def list_all_iff)
  have same2: "classpath_products (final_state ?run) 2 = classpath_products ex_state 2"
    using at2 nd2 by blast
  from nd2 have nd2': "list_all (\<lambda>e. \<not> ex_is_dir (snd e)) (classpath_products ex_state 2)"
    by (simp add: list_all_iff)
  have ok: "\<not> isl ?run"
    unfolding run by simp
  from ex_archives ok nd1 kept front written nd2' same2 show ?thesis
    unfolding fin by (intro conjI)
qed

subsection \<open>A jar that cannot be written\<close>

text \<open>
  Claim C8 (fail-fast manifest safety). Let the targets \<open>pre\<close> have been processed,
  and let the jar tool fail on a directory entry of the next target \<open>x\<close>, whose token is
  invalid. Then the run raises \<^verbatim>\<open>TaskError\<close> for the first archive of \<open>x\<close> that cannot
  be written; no later target is looked at. In the state the raise leaves, every target
  processed before has its rewritten sequence, free of directories, and every target that
  is neither \<open>x\<close> nor among \<open>pre\<close> has the sequence it had before the run.
\<close>

theorem failed_write_raises_and_spares_the_other_targets:
  assumes "consolidate_classpath is_dir open_jar oracle pre st = Inr st1"
    and "\<forall>t\<in>set pre. archives_not_dirs is_dir (snd (oracle t))"
    and "\<not> fst (oracle x)"
    and "i < length (classpath_products st1 x)"
    and "is_dir (snd (classpath_products st1 x ! i))"
    and "\<not> open_jar (jarpath (snd (oracle x)) i) (snd (classpath_products st1 x ! i))"
  shows "\<exists>j st2.
           consolidate_classpath is_dir open_jar oracle (pre @ x # post) st =
             Inl (TaskError (jarpath (snd (oracle x)) j), st2)
           \<and> j \<le> i
           \<and> is_dir (snd (classpath_products st1 x ! j))
           \<and> \<not> open_jar (jarpath (snd (oracle x)) j) (snd (classpath_products st1 x ! j))
           \<and> (\<forall>t\<in>set pre. t \<noteq> x \<longrightarrow>
                 classpath_products st2 t =
                   consolidated_entries is_dir (snd (oracle t)) (classpath_products st t)
                 \<and> (\<forall>e\<in>set (classpath_products st2 t). \<not> is_dir (snd e)))
           \<and> (\<forall>t. t \<notin> set pre \<and> t \<noteq> x \<longrightarrow>
                 classpath_products st2 t = classpath_products st t)"
proof -
  let ?vt = "\<lparr>target = x, valid = fst (oracle x), results_dir = snd (oracle x)\<rparr>"
  obtain j st2 where
    raised: "consolidate_vt is_dir open_jar ?vt st1 =
               Inl (TaskError (jarpath (snd (oracle x)) j), st2)"
    and first: "j \<le> i"
    and dir: "is_dir (snd (classpath_products st1 x ! j))"
    and fails: "\<not> open_jar (jarpath (snd (oracle x)) j) (snd (classpath_products st1 x ! j))"
    using consolidate_vt_raises [of ?vt i st1 is_dir open_jar] assms(3-6) by auto
  have run: "consolidate_classpath is_dir open_jar oracle (pre @ x # post) st =
               Inl (TaskError (jarpath (snd (oracle x)) j), st2)"
    using assms(1) raised by (simp add: consolidate_classpath_snoc)
  have frame: "classpath_products st2 t = classpath_products st1 t" if "t \<noteq> x" for t
    using consolidate_vt_frame [of t ?vt is_dir open_jar st1] that raised
    by (simp add: final_state_simps)
  have before: "classpath_products st1 t =
           (if t \<in> set pre
            then consolidated_entries is_dir (snd (oracle t)) (classpath_products st t)
            else classpath_products st t)" for t
    by (rule consolidate_classpath_success [OF assms(1,2)])
  have processed: "\<forall>t\<in>set pre. t \<noteq> x \<longrightarrow>
                 classpath_products st2 t =
                   consolidated_entries is_dir (snd (oracle t)) (classpath_products st t)
                 \<and> (\<forall>e\<in>set (classpath_products st2 t). \<not> is_dir (snd e))"
  proof (intro ballI impI)
    fix t assume t: "t \<in> set pre" "t \<noteq> x"
    then have eq: "classpath_products st2 t =
        consolidated_entries is_dir (snd (oracle t)) (classpath_products st t)"
      using frame [of t] before [of t] by simp
    moreover have "archives_not_dirs is_dir (snd (oracle t))"
      using assms(2) t(1) by blast
    then have "\<forall>e\<in>set (classpath_products st2 t). \<not> is_dir (snd e)"
      unfolding eq using consolidated_entries_no_directory by blast
    ultimately show "classpath_products st2 t =
        consolidated_entries is_dir (snd (oracle t)) (classpath_products st t)
        \<and> (\<forall>e\<in>set (classpath_products st2 t). \<not> is_dir (snd e))" by blast
  qed
  have others: "\<forall>t. t \<notin> set pre \<and> t \<noteq> x \<longrightarrow>
                 classpath_products st2 t = classpath_products st t"
    using frame before by simp
  from run first dir fails processed others show ?thesis
    by (intro exI [of _ j] exI [of _ st2] conjI)
qed

lemma ex_run_3_no_jar_tool:
  "consolidate_classpath ex_is_dir (\<lambda>jarpath src. False) ex_oracle [3] ex_state =
     Inr \<lparr>classpath_products = ex_classpath
            (3 := [(''default'', ''/out/T3/output-0.jar''),
                   (''shaded'', ''/out/T3/output-1.jar'')]),
          jars = []\<rparr>"
  by (simp add: ex_defs)

theorem failed_write_raises_and_spares_the_other_targets_witness:
  "\<not> isl (consolidate_classpath ex_is_dir (\<lambda>jarpath src. False) ex_oracle [3] ex_state)
   \<and> archives_not_dirs ex_is_dir (snd (ex_oracle 3))
   \<and> \<not> fst (ex_oracle 1)
   \<and> ex_is_dir (snd (classpath_products
        (final_state (consolidate_classpath ex_is_dir (\<lambda>jarpath src. False) ex_oracle [3] ex_state))
        1 ! 1))
   \<and> isl (consolidate_classpath ex_is_dir (\<lambda>jarpath src. False) ex_oracle ([3] @ 1 # [2]) ex_state)
   \<and> list_all (\<lambda>e. \<not> ex_is_dir (snd e))
        (classpath_products
           (final_state
              (consolidate_classpath ex_is_dir (\<lambda>jarpath src. False) ex_oracle ([3] @ 1 # [2]) ex_state))
           3)
   \<and> classpath_products
        (final_state
           (consolidate_classpath ex_is_dir (\<lambda>jarpath src. False) ex_oracle ([3] @ 1 # [2]) ex_state))
        2 = classpath_products ex_state 2"
proof -
  let ?st1 = "\<lparr>classpath_products = ex_classpath
            (3 := [(''default'', ''/out/T3/output-0.jar''),
                   (''shaded'', ''/out/T3/output-1.jar'')]),
          jars = []\<rparr>"
  let ?run = "consolidate_classpath ex_is_dir (\<lambda>jarpath src. False) ex_oracle ([3] @ 1 # [2]) ex_state"
  have arch: "\<forall>t\<in>set [3]. archives_not_dirs ex_is_dir (snd (ex_oracle t))"
    using ex_archives by simp
  have invalid: "\<not> fst (ex_oracle 1)"
    by (simp add: ex_oracle_def)
  have len: "1 < length (classpath_products ?st1 1)"
    by (simp add: ex_classpath_def)
  have dir: "ex_is_dir (snd (classpath_products ?st1 1 ! 1))"
    by (simp add: ex_classpath_def ex_is_dir_def)
  have no_tool: "\<not> (\<lambda>jarpath src. False) (jarpath (snd (ex_oracle 1)) 1)
                    (snd (classpath_products ?st1 1 ! 1))"
    by simp
  obtain j st2 where
    run: "?run = Inl (TaskError (jarpath (snd (ex_oracle 1)) j), st2)"
    and processed: "\<forall>t\<in>set [3]. t \<noteq> 1 \<longrightarrow>
        classpath_products st2 t =
          consolidated_entries ex_is_dir (snd (ex_oracle t)) (classpath_products ex_state t)
        \<and> (\<forall>e\<in>set (classpath_products st2 t). \<not> ex_is_dir (snd e))"
    and others: "\<forall>t. t \<notin> set [3] \<and> t \<noteq> 1 \<longrightarrow>
        classpath_products st2 t = classpath_products ex_state t"
    using failed_write_raises_and_spares_the_other_targets
      [OF ex_run_3_no_jar_tool arch invalid len dir no_tool, of "[2]"]
    by blast
  from processed have "list_all (\<lambda>e. \<not> ex_is_dir (snd e)) (classpath_products st2 3)"
    by (simp add: list_all_iff)
  moreover from others have "classpath_products st2 2 = classpath_products ex_state 2"
    by simp
  ultimately show ?thesis
    unfolding run ex_run_3_no_jar_tool
    using ex_archives invalid dir by (simp add: final_state_simps)
qed

subsection \<open>\<^verbatim>\<open>execute\<close> and the products\<close>

text \<open>
  What \<^verbatim>\<open>execute\<close> works with once the products are fetched: the object registered as
  consolidated classpath and the registry after the second \<^verbatim>\<open>get_data\<close>.
\<close>

lemma get_data_consolidated:
  "get_data ''consolidated_classpath'' (copy_products r) ctx = (c, ctx0) \<Longrightarrow>
   products ctx0 ''consolidated_classpath'' = Some c
   \<and> products ctx0 ''runtime_classpath'' = products ctx ''runtime_classpath''
   \<and> context_targets ctx0 = context_targets ctx
   \<and> jars_written ctx0 = jars_written ctx
   \<and> (products ctx ''consolidated_classpath'' = Some c \<and> ctx0 = ctx
      \<or> products ctx ''consolidated_classpath'' = None \<and> c = next_object ctx
        \<and> objects ctx0 = (objects ctx)(next_object ctx := objects ctx r))"
  by (auto simp: get_data_def copy_products_def split: option.splits)

lemma execute_unfold:
  assumes "products ctx ''runtime_classpath'' = Some r"
    and "get_data ''consolidated_classpath'' (copy_products r) ctx = (c, ctx0)"
  shows "execute is_dir open_jar oracle ctx =
     (case consolidate_classpath is_dir open_jar oracle
             (find_consolidate_classpath_candidates is_dir (objects ctx0 c) (context_targets ctx0))
             \<lparr>classpath_products = objects ctx0 c, jars = jars_written ctx0\<rparr> of
        Inl (raised, st1) \<Rightarrow> Inl (raised, store_back c st1 ctx0)
      | Inr st1 \<Rightarrow> Inr (store_back c st1 ctx0))"
  using assms by (simp add: execute_def)

lemma final_state_execute:
  assumes "products ctx ''runtime_classpath'' = Some r"
    and "get_data ''consolidated_classpath'' (copy_products r) ctx = (c, ctx0)"
  shows "final_state (execute is_dir open_jar oracle ctx) =
     store_back c
       (final_state
          (consolidate_classpath is_dir open_jar oracle
             (find_consolidate_classpath_candidates is_dir (objects ctx0 c) (context_targets ctx0))
             \<lparr>classpath_products = objects ctx0 c, jars = jars_written ctx0\<rparr>))
       ctx0"
  unfolding execute_unfold [OF assms]
  by (auto simp: final_state_def split: sum.splits)

lemma store_back_same:
  "store_back c \<lparr>classpath_products = objects ctx c, jars = jars_written ctx\<rparr> ctx = ctx"
  by (simp add: store_back_def)

lemma processed_target_has_no_directory:
  assumes "consolidate_classpath is_dir open_jar oracle ts st = Inr st'"
    and "\<forall>t\<in>set ts. archives_not_dirs is_dir (snd (oracle t))"
    and "t \<in> set ts"
  shows "\<forall>e\<in>set (classpath_products st' t). \<not> is_dir (snd e)"
proof -
  have "archives_not_dirs is_dir (snd (oracle t))"
    using assms(2,3) by blast
  then show ?thesis
    using consolidate_classpath_success [OF assms(1,2), of t] assms(3)
      consolidated_entries_no_directory [of is_dir "snd (oracle t)"]
    by auto
qed

lemma consolidate_classpath_Nil:
  "consolidate_classpath is_dir open_jar oracle [] st = Inr st"
  by (simp add: consolidate_classpath_def invalidated_def)


text \<open>
  Claim C2 (idempotence). When \<^verbatim>\<open>execute\<close> has returned, a second \<^verbatim>\<open>execute\<close> on
  what the first left behind returns too and changes nothing at all: the products, every
  classpath object and the jars on disk are what they were, whatever the tokens and the
  jar tool of the second run are. The reason is the one the claim gives: the candidate
  filter finds no target with a directory entry in the consolidated classpath, so
  nothing is removed, added or written.
\<close>

theorem second_execute_changes_nothing:
  assumes "execute is_dir open_jar oracle ctx = Inr ctx1"
    and "\<forall>t\<in>set (context_targets ctx). archives_not_dirs is_dir (snd (oracle t))"
  shows "execute is_dir open_jar2 oracle2 ctx1 = Inr ctx1
         \<and> (\<exists>c. products ctx1 ''consolidated_classpath'' = Some c
              \<and> find_consolidate_classpath_candidates is_dir (objects ctx1 c)
                   (context_targets ctx1) = [])"
proof -
  obtain r where r: "products ctx ''runtime_classpath'' = Some r"
    using assms(1) by (auto simp: execute_def split: option.splits)
  obtain c ctx0 where gd: "get_data ''consolidated_classpath'' (copy_products r) ctx = (c, ctx0)"
    by (cases "get_data ''consolidated_classpath'' (copy_products r) ctx")
  note facts = get_data_consolidated [OF gd]
  let ?cands = "find_consolidate_classpath_candidates is_dir (objects ctx0 c) (context_targets ctx0)"
  let ?st = "\<lparr>classpath_products = objects ctx0 c, jars = jars_written ctx0\<rparr>"
  obtain st1 where run: "consolidate_classpath is_dir open_jar oracle ?cands ?st = Inr st1"
    and ctx1: "ctx1 = store_back c st1 ctx0"
    using assms(1) unfolding execute_unfold [OF r gd] by (auto split: sum.splits prod.splits)
  have cands: "set ?cands \<subseteq> set (context_targets ctx)"
    using facts by (auto simp: candidates_filter)
  then have arch: "\<forall>t\<in>set ?cands. archives_not_dirs is_dir (snd (oracle t))"
    using assms(2) by blast
  have clean: "\<not> is_dir (snd e)"
    if "t \<in> set (context_targets ctx)" and "e \<in> set (classpath_products st1 t)" for t e
  proof (cases "t \<in> set ?cands")
    case True
    then show ?thesis
      using processed_target_has_no_directory [OF run arch True] that(2) by blast
  next
    case False
    then have "classpath_products st1 t = objects ctx0 c t"
      using consolidate_classpath_success [OF run arch, of t] by simp
    moreover have "\<forall>e\<in>set (objects ctx0 c t). \<not> is_dir (snd e)"
      using False that(1) facts by (auto simp: candidates_filter)
    ultimately show ?thesis using that(2) by simp
  qed
  have p1: "products ctx1 ''runtime_classpath'' = Some r"
    and p2: "products ctx1 ''consolidated_classpath'' = Some c"
    and o1: "objects ctx1 c = classpath_products st1"
    and t1: "context_targets ctx1 = context_targets ctx"
    using facts r by (simp_all add: ctx1 store_back_def)
  have none: "find_consolidate_classpath_candidates is_dir (objects ctx1 c)
                (context_targets ctx1) = []"
    using clean by (auto simp: candidates_filter o1 t1 filter_empty_conv)
  have gd1: "get_data ''consolidated_classpath'' (copy_products r) ctx1 = (c, ctx1)"
    using p2 by (simp add: get_data_def)
  have "execute is_dir open_jar2 oracle2 ctx1 = Inr ctx1"
    unfolding execute_unfold [OF p1 gd1] none
    by (simp add: consolidate_classpath_Nil store_back_same)
  with p2 none show ?thesis by blast
qed


lemma ex_execute:
  "execute ex_is_dir (\<lambda>jarpath src. True) ex_oracle ex_context =
     Inr \<lparr>products = [''runtime_classpath'' \<mapsto> 0, ''consolidated_classpath'' \<mapsto> 1],
          objects = (\<lambda>a. ex_classpath)
            (1 := ex_classpath
               (1 := [(''default'', ''/lib/a.jar''), (''shaded'', ''/lib/b.jar''),
                      (''default'', ''/out/T1/output-1.jar'')],
                3 := [(''default'', ''/out/T3/output-0.jar''),
                      (''shaded'', ''/out/T3/output-1.jar'')])),
          next_object = 2, context_targets = [1, 2, 3],
          jars_written = [(''/out/T1/output-1.jar'', ''/build/T1/classes'')]\<rparr>"
  by (simp add: execute_def get_data_def copy_products_def store_back_def ex_context_def
      find_consolidate_classpath_candidates_def ex_defs)


theorem second_execute_changes_nothing_witness:
  "\<not> isl (execute ex_is_dir (\<lambda>jarpath src. True) ex_oracle ex_context)
   \<and> archives_not_dirs ex_is_dir (snd (ex_oracle 1))
   \<and> archives_not_dirs ex_is_dir (snd (ex_oracle 2))
   \<and> archives_not_dirs ex_is_dir (snd (ex_oracle 3))
   \<and> jars_written (final_state (execute ex_is_dir (\<lambda>jarpath src. True) ex_oracle ex_context)) =
       [(''/out/T1/output-1.jar'', ''/build/T1/classes'')]
   \<and> execute ex_is_dir (\<lambda>jarpath src. False) (\<lambda>t. (False, ''/elsewhere''))
        (final_state (execute ex_is_dir (\<lambda>jarpath src. True) ex_oracle ex_context)) =
       Inr (final_state (execute ex_is_dir (\<lambda>jarpath src. True) ex_oracle ex_context))"
proof -
  let ?first = "execute ex_is_dir (\<lambda>jarpath src. True) ex_oracle ex_context"
  obtain ctx1 where first: "?first = Inr ctx1"
    using ex_execute by simp
  have arch: "\<forall>t\<in>set (context_targets ex_context). archives_not_dirs ex_is_dir (snd (ex_oracle t))"
    using ex_archives by simp
  have again: "execute ex_is_dir (\<lambda>jarpath src. False) (\<lambda>t. (False, ''/elsewhere'')) ctx1 = Inr ctx1"
    using second_execute_changes_nothing [OF first arch] by blast
  have written: "jars_written ctx1 = [(''/out/T1/output-1.jar'', ''/build/T1/classes'')]"
    using first [unfolded ex_execute] by auto
  from again written ex_archives show ?thesis
    unfolding first by (simp add: final_state_simps)
qed

text \<open>
  Claim C9 (the runtime classpath is not touched). Without a \<^verbatim>\<open>runtime_classpath\<close>
  product \<^verbatim>\<open>execute\<close> raises before it changes anything. With one, however the run
  ends, the product is still registered and its object has the value it had. The task
  works on the consolidated classpath, which must be another object than the runtime
  classpath: when no such product is registered, \<^verbatim>\<open>execute\<close> registers a new object
  that starts as a copy of the runtime classpath, and all that the consolidation does is
  done to that copy.
\<close>

theorem execute_leaves_the_runtime_classpath:
  "(products ctx ''runtime_classpath'' = None \<longrightarrow>
      execute is_dir open_jar oracle ctx = Inl (AttributeError, ctx))
   \<and> (products ctx ''runtime_classpath'' = Some r \<and> r < next_object ctx
       \<and> products ctx ''consolidated_classpath'' \<noteq> Some r \<longrightarrow>
        products (final_state (execute is_dir open_jar oracle ctx)) ''runtime_classpath'' = Some r
        \<and> objects (final_state (execute is_dir open_jar oracle ctx)) r = objects ctx r
        \<and> (products ctx ''consolidated_classpath'' = None \<longrightarrow>
             products (final_state (execute is_dir open_jar oracle ctx)) ''consolidated_classpath'' =
               Some (next_object ctx)
             \<and> objects (final_state (execute is_dir open_jar oracle ctx)) (next_object ctx) =
                 classpath_products
                   (final_state
                      (consolidate_classpath is_dir open_jar oracle
                         (find_consolidate_classpath_candidates is_dir (objects ctx r)
                            (context_targets ctx))
                         \<lparr>classpath_products = objects ctx r, jars = jars_written ctx\<rparr>))))"
proof (intro conjI impI)
  assume "products ctx ''runtime_classpath'' = None"
  then show "execute is_dir open_jar oracle ctx = Inl (AttributeError, ctx)"
    by (simp add: execute_def)
next
  assume a: "products ctx ''runtime_classpath'' = Some r \<and> r < next_object ctx
       \<and> products ctx ''consolidated_classpath'' \<noteq> Some r"
  then have r: "products ctx ''runtime_classpath'' = Some r" by blast
  obtain c ctx0 where gd: "get_data ''consolidated_classpath'' (copy_products r) ctx = (c, ctx0)"
    by (cases "get_data ''consolidated_classpath'' (copy_products r) ctx")
  note facts = get_data_consolidated [OF gd]
  note fin = final_state_execute [OF r gd, of is_dir open_jar "oracle"]
  have ne: "c \<noteq> r"
    using facts a by auto
  have same: "objects ctx0 r = objects ctx r"
    using facts a by auto
  show "products (final_state (execute is_dir open_jar oracle ctx)) ''runtime_classpath'' = Some r"
    using facts r by (simp add: fin store_back_def)
  show "objects (final_state (execute is_dir open_jar oracle ctx)) r = objects ctx r"
    using ne same by (simp add: fin store_back_def)
  assume none: "products ctx ''consolidated_classpath'' = None"
  with facts have c: "c = next_object ctx"
    and obj: "objects ctx0 c = objects ctx r"
    by auto
  show "products (final_state (execute is_dir open_jar oracle ctx)) ''consolidated_classpath'' =
          Some (next_object ctx)"
    using facts c by (simp add: fin store_back_def)
  show "objects (final_state (execute is_dir open_jar oracle ctx)) (next_object ctx) =
          classpath_products
            (final_state
               (consolidate_classpath is_dir open_jar oracle
                  (find_consolidate_classpath_candidates is_dir (objects ctx r)
                     (context_targets ctx))
                  \<lparr>classpath_products = objects ctx r, jars = jars_written ctx\<rparr>))"
    using facts obj c by (simp add: fin store_back_def)
qed

theorem execute_leaves_the_runtime_classpath_witness:
  "products ex_context ''runtime_classpath'' = Some 0
   \<and> 0 < next_object ex_context
   \<and> products ex_context ''consolidated_classpath'' = None
   \<and> products (final_state (execute ex_is_dir (\<lambda>jarpath src. True) ex_oracle ex_context))
        ''runtime_classpath'' = Some 0
   \<and> objects (final_state (execute ex_is_dir (\<lambda>jarpath src. True) ex_oracle ex_context)) 0 =
       objects ex_context 0
   \<and> products (final_state (execute ex_is_dir (\<lambda>jarpath src. True) ex_oracle ex_context))
        ''consolidated_classpath'' = Some 1
   \<and> objects (final_state (execute ex_is_dir (\<lambda>jarpath src. True) ex_oracle ex_context)) 1 1 =
       [(''default'', ''/lib/a.jar''), (''shaded'', ''/lib/b.jar''),
        (''default'', ''/out/T1/output-1.jar'')]
   \<and> objects (final_state (execute ex_is_dir (\<lambda>jarpath src. True) ex_oracle ex_context)) 0 1 =
       [(''default'', ''/lib/a.jar''), (''default'', ''/build/T1/classes''),
        (''shaded'', ''/lib/b.jar'')]"
proof -
  have hyp: "products ex_context ''runtime_classpath'' = Some 0 \<and> 0 < next_object ex_context
       \<and> products ex_context ''consolidated_classpath'' \<noteq> Some 0"
    and none: "products ex_context ''consolidated_classpath'' = None"
    and nxt: "next_object ex_context = 1"
    by (simp_all add: ex_context_def)
  note kept = execute_leaves_the_runtime_classpath
    [of ex_context ex_is_dir "\<lambda>jarpath src. True" ex_oracle 0, THEN conjunct2, rule_format, OF hyp]
  have a: "products (final_state (execute ex_is_dir (\<lambda>jarpath src. True) ex_oracle ex_context))
        ''runtime_classpath'' = Some 0"
    and b: "objects (final_state (execute ex_is_dir (\<lambda>jarpath src. True) ex_oracle ex_context)) 0 =
       objects ex_context 0"
    and c: "products (final_state (execute ex_is_dir (\<lambda>jarpath src. True) ex_oracle ex_context))
        ''consolidated_classpath'' = Some 1"
    using kept none nxt by simp_all
  have d: "objects (final_state (execute ex_is_dir (\<lambda>jarpath src. True) ex_oracle ex_context)) 1 1 =
       [(''default'', ''/lib/a.jar''), (''shaded'', ''/lib/b.jar''),
        (''default'', ''/out/T1/output-1.jar'')]"
    unfolding ex_execute by (simp add: final_state_simps)
  have e: "objects ex_context 0 1 =
       [(''default'', ''/lib/a.jar''), (''default'', ''/build/T1/classes''),
        (''shaded'', ''/lib/b.jar'')]"
    by (simp add: ex_context_def ex_classpath_def)
  from hyp none a b c d e show ?thesis
    by simp
qed

end
